theory Spec2Isabelle
  imports Main "HOL-Library.Word" "HOL-Library.Multiset" "HOL-Library.Sublist"
begin

unbundle bit_operations_syntax

section \<open>Data model of perfsession/symbolize.go\<close>

type_synonym u64 = "64 word"

text \<open>\<^verbatim>\<open>type funcRange struct { name string; lowpc, highpc uint64; demangled bool }\<close>\<close>

record funcRange =
  name :: string
  lowpc :: u64
  highpc :: u64
  demangled :: bool

text \<open>
  \<^verbatim>\<open>dwarf.LineEntry\<close> of the Go standard library, field by field. The \<^verbatim>\<open>*LineFile\<close>
  pointer is kept as the optional file name.
\<close>

record LineEntry =
  Address :: u64
  OpIndex :: int
  File :: "string option"
  LineNo :: int
  Column :: int
  IsStmt :: bool
  BasicBlock :: bool
  PrologueEnd :: bool
  EpilogueBegin :: bool
  ISA :: int
  Discriminator :: int
  EndSequence :: bool

definition zeroLineEntry :: LineEntry where
  "zeroLineEntry = \<lparr>Address = 0, OpIndex = 0, File = None, LineNo = 0, Column = 0,
     IsStmt = False, BasicBlock = False, PrologueEnd = False, EpilogueBegin = False,
     ISA = 0, Discriminator = 0, EndSequence = False\<rparr>"

text \<open>\<^verbatim>\<open>type Symbolic struct { FuncName string; Line dwarf.LineEntry }\<close>\<close>

record Symbolic =
  FuncName :: string
  Line :: LineEntry

text \<open>The fields of \<^verbatim>\<open>Mmap\<close> that symbolize.go reads.\<close>

record Mmap =
  Filename :: string
  Addr :: u64
  FileOffset :: u64

text \<open>
  \<^verbatim>\<open>type symbolicExtra struct { functab []funcRange; linetab []dwarf.LineEntry; isReloc bool }\<close>.
  A nil slice is \<open>None\<close>; a non-nil slice, empty or not, is \<open>Some\<close>.
\<close>

record symbolicExtra =
  functab :: "funcRange list option"
  linetab :: "LineEntry list option"
  isReloc :: bool

section \<open>sort.Search\<close>

text \<open>
  The loop of Go's \<^verbatim>\<open>sort.Search(n, f)\<close>:
  \<^verbatim>\<open>i, j := 0, n; for i < j { h := int(uint(i+j) >> 1); if !f(h) { i = h + 1 } else { j = h } }; return i\<close>.
\<close>

function sort_Search_loop :: "(nat \<Rightarrow> bool) \<Rightarrow> nat \<Rightarrow> nat \<Rightarrow> nat" where
  "sort_Search_loop f i j =
     (if i < j
      then (let h = (i + j) div 2
            in if \<not> f h then sort_Search_loop f (h + 1) j else sort_Search_loop f i h)
      else i)"
  by pat_completeness auto
termination
  by (relation "measure (\<lambda>(f, i, j). j - i)") auto

declare sort_Search_loop.simps [simp del]

definition sort_Search :: "nat \<Rightarrow> (nat \<Rightarrow> bool) \<Rightarrow> nat" where
  "sort_Search n f = sort_Search_loop f 0 n"

section \<open>findIP\<close>

text \<open>
  \<^verbatim>\<open>func (s *symbolicExtra) findIP(mmap *Mmap, ip uint64) (f *funcRange, l *dwarf.LineEntry)\<close>.
  The first argument is \<^verbatim>\<open>demangle.Filter\<close>, an external library function. The result is the
  table after the in-place update of the matched range, the index of the matched range
  (the pointer \<^verbatim>\<open>&s.functab[i]\<close>) and the line entry (the value behind \<^verbatim>\<open>&s.linetab[i-1]\<close>).
  The variable \<^verbatim>\<open>ip\<close> is reassigned in the relocation branch and read again by the line
  search, so the model threads it through.
\<close>

definition findIP ::
  "(string \<Rightarrow> string) \<Rightarrow> symbolicExtra \<Rightarrow> Mmap \<Rightarrow> u64 \<Rightarrow> symbolicExtra \<times> nat option \<times> LineEntry option"
where
  "findIP demangle_Filter s mmap ip0 =
     (let (ip, s1, f) =
        (case functab s of
           None \<Rightarrow> (ip0, s, None)
         | Some ft \<Rightarrow>
             (let ip = (if isReloc s then ip0 - Addr mmap + FileOffset mmap else ip0);
                  i = sort_Search (length ft) (\<lambda>i. ip < highpc (ft ! i))
              in if i < length ft \<and> lowpc (ft ! i) \<le> ip \<and> ip < highpc (ft ! i)
                 then (if \<not> demangled (ft ! i)
                       then (ip,
                             s\<lparr>functab := Some (ft[i := (ft ! i)\<lparr>name := demangle_Filter (name (ft ! i)),
                                                               demangled := True\<rparr>])\<rparr>,
                             Some i)
                       else (ip, s, Some i))
                 else (ip, s, None)));
          l = (case linetab s of
                 None \<Rightarrow> None
               | Some lt \<Rightarrow>
                   (let i = sort_Search (length lt) (\<lambda>i. ip < Address (lt ! i))
                    in if i \<noteq> 0 \<and> \<not> EndSequence (lt ! (i - 1)) then Some (lt ! (i - 1)) else None))
      in (s1, f, l))"

section \<open>How a call can end\<close>

text \<open>
  \<^verbatim>\<open>log.Fatal\<close> and \<^verbatim>\<open>log.Fatalf\<close> print and call \<^verbatim>\<open>os.Exit(1)\<close>; a slice expression out of
  range panics. Either way the process ends and the call never returns: \<open>Abort\<close>.
  Errors that are returned are values of \<open>error\<close>.
\<close>

datatype abort = LogFatal | SliceBoundsPanic

datatype 'a outcome = Abort abort | Ret 'a

datatype error =
    ErrLoadingELF string string
  | ErrLoadingDWARF string string
  | ErrLoadingKallsyms string string
  | ErrScanner string

section \<open>The images, as debug/elf and debug/dwarf present them\<close>

datatype elf_Type = ET_EXEC | ET_DYN | ET_OTHER

record elf_Section =
  sec_Addr :: u64
  sec_Offset :: u64

record elf_Symbol =
  sym_Name :: string
  sym_Info :: "8 word"
  sym_Section :: nat
  sym_Value :: u64
  sym_Size :: u64

text \<open>What \<^verbatim>\<open>elff.Symbols()\<close> returns: the symbols, \<^verbatim>\<open>elf.ErrNoSymbols\<close>, or another error.\<close>

datatype elf_Symbols = Symbols "elf_Symbol list" | ErrNoSymbols | SymbolsError string

datatype dwarf_Tag = TagSubprogram | TagCompileUnit | TagModule | TagNamespace | TagOther

text \<open>
  The dynamic type of \<^verbatim>\<open>ent.Val(dwarf.AttrHighpc)\<close>: a \<^verbatim>\<open>uint64\<close>, an \<^verbatim>\<open>int64\<close> (kept as its
  64 bits, which is what \<^verbatim>\<open>uint64(highpcx)\<close> reads), or anything else, nil included.
\<close>

datatype highpc_Val = HighpcUint64 u64 | HighpcInt64 u64 | HighpcOther

text \<open>
  What \<^verbatim>\<open>dwarff.LineReader(ent)\<close> and the calls of \<^verbatim>\<open>lr.Next\<close> deliver for a compilation unit:
  an error, a nil reader, or the entries read before \<^verbatim>\<open>io.EOF\<close> (\<open>None\<close>) or before another
  error (\<open>Some\<close>).
\<close>

datatype line_Reader = LineReaderError string | LineReaderNil | LineReader "LineEntry list" "string option"

record dwarf_Entry =
  Tag :: dwarf_Tag
  AttrLinkageName :: "string option"
  AttrName :: "string option"
  AttrLowpc :: "u64 option"
  AttrHighpc :: highpc_Val
  LineProgram :: line_Reader

text \<open>
  The entry stream of \<^verbatim>\<open>dwarff.Reader()\<close> as the tree it encodes: \<^verbatim>\<open>Next\<close> walks it in
  preorder and \<^verbatim>\<open>SkipChildren\<close> drops the subtree of the last entry. Both loops of the
  source stop at the first nil entry or error of \<^verbatim>\<open>Next\<close> and keep what they have, so a
  stream that fails is the tree of the entries before the failure.
\<close>

datatype dwarf_Node = Node dwarf_Entry "dwarf_Node list"

record elf_File =
  elf_Type :: elf_Type
  has_debug_info :: bool
  elf_DWARF :: "string + dwarf_Node list"
  Sections :: "elf_Section list"
  elf_Symbols :: elf_Symbols

text \<open>What \<^verbatim>\<open>os.Open\<close> and the \<^verbatim>\<open>bufio.Scanner\<close> deliver: the lines scanned, then \<^verbatim>\<open>scanner.Err()\<close>.\<close>

record text_File =
  scan_Text :: "string list"
  scan_Err :: "string option"

text \<open>
  The collaborators outside symbolize.go: \<^verbatim>\<open>demangle.Filter\<close>, \<^verbatim>\<open>sort.Sort\<close> on a
  \<^verbatim>\<open>funcRangeSorter\<close> (not stable, so no particular algorithm is fixed here),
  \<^verbatim>\<open>elf.Open\<close>, \<^verbatim>\<open>os.Open\<close> and the package variable \<^verbatim>\<open>buildIDDir\<close>.
\<close>

record env =
  demangle_Filter :: "string \<Rightarrow> string"
  sort_Sort :: "funcRange list \<Rightarrow> funcRange list"
  elf_Open :: "string \<Rightarrow> string + elf_File"
  os_Open :: "string \<Rightarrow> string + text_File"
  buildIDDir :: string

section \<open>setFuncHighPCs\<close>

text \<open>
  \<^verbatim>\<open>for i := range functab { if functab[i].highpc == functab[i].lowpc { ... } }\<close>, updating the
  slice in place: one step of the loop, then the loop over the indices.
\<close>

definition setFuncHighPCs_step :: "nat \<Rightarrow> funcRange list \<Rightarrow> funcRange list" where
  "setFuncHighPCs_step i ft =
     (if highpc (ft ! i) = lowpc (ft ! i)
      then (if i = length ft - 1
            then ft[i := (ft ! i)\<lparr>highpc := highpc (ft ! i) + 1\<rparr>]
            else ft[i := (ft ! i)\<lparr>highpc := lowpc (ft ! (i + 1))\<rparr>])
      else ft)"

definition setFuncHighPCs :: "funcRange list \<Rightarrow> funcRange list" where
  "setFuncHighPCs ft = fold setFuncHighPCs_step [0..<length ft] ft"

section \<open>dwarfFuncTable\<close>

text \<open>The body of \<^verbatim>\<open>case dwarf.TagSubprogram\<close>: the range the entry contributes, if any.\<close>

definition subprogram_range :: "dwarf_Entry \<Rightarrow> funcRange list" where
  "subprogram_range ent =
     (case (case AttrLinkageName ent of
              Some n \<Rightarrow> Some (n, True)
            | None \<Rightarrow> (case AttrName ent of Some n \<Rightarrow> Some (n, False) | None \<Rightarrow> None)) of
        None \<Rightarrow> []
      | Some (n, d) \<Rightarrow>
          (case AttrLowpc ent of
             None \<Rightarrow> []
           | Some lo \<Rightarrow>
               (case AttrHighpc ent of
                  HighpcUint64 hi \<Rightarrow> [\<lparr>name = n, lowpc = lo, highpc = hi, demangled = d\<rparr>]
                | HighpcInt64 x \<Rightarrow> [\<lparr>name = n, lowpc = lo, highpc = lo + x, demangled = d\<rparr>]
                | HighpcOther \<Rightarrow> [])))"

fun dwarf_funcs :: "dwarf_Node \<Rightarrow> funcRange list" where
  "dwarf_funcs (Node ent children) =
     (case Tag ent of
        TagSubprogram \<Rightarrow> subprogram_range ent
      | TagCompileUnit \<Rightarrow> concat (map dwarf_funcs children)
      | TagModule \<Rightarrow> concat (map dwarf_funcs children)
      | TagNamespace \<Rightarrow> concat (map dwarf_funcs children)
      | TagOther \<Rightarrow> [])"

definition dwarfFuncTable :: "env \<Rightarrow> dwarf_Node list \<Rightarrow> funcRange list option" where
  "dwarfFuncTable E dwarff =
     (let out = sort_Sort E (concat (map dwarf_funcs dwarff))
      in if length out = 0 then None else Some out)"

section \<open>dwarfLineTable\<close>

fun dwarf_lines :: "dwarf_Node \<Rightarrow> LineEntry list outcome"
  and dwarf_lines_list :: "dwarf_Node list \<Rightarrow> LineEntry list outcome" where
  "dwarf_lines (Node ent children) =
     (if Tag ent \<noteq> TagCompileUnit then Ret []
      else (case LineProgram ent of
              LineReaderError err \<Rightarrow> Abort LogFatal
            | LineReaderNil \<Rightarrow> dwarf_lines_list children
            | LineReader lents err \<Rightarrow>
                (case err of
                   Some e \<Rightarrow> Abort LogFatal
                 | None \<Rightarrow>
                     (case dwarf_lines_list children of
                        Abort a \<Rightarrow> Abort a
                      | Ret later \<Rightarrow> Ret (lents @ later)))))"
| "dwarf_lines_list [] = Ret []"
| "dwarf_lines_list (n # ns) =
     (case dwarf_lines n of
        Abort a \<Rightarrow> Abort a
      | Ret out \<Rightarrow>
          (case dwarf_lines_list ns of
             Abort a \<Rightarrow> Abort a
           | Ret later \<Rightarrow> Ret (out @ later)))"

definition dwarfLineTable :: "dwarf_Node list \<Rightarrow> LineEntry list outcome" where
  "dwarfLineTable dwarff = dwarf_lines_list dwarff"

section \<open>elfFuncTable\<close>

text \<open>The loop \<^verbatim>\<open>for _, sym := range syms\<close>, with \<^verbatim>\<open>elf.STT_FUNC = 2\<close> and \<^verbatim>\<open>elf.SHN_UNDEF = 0\<close>.\<close>

fun elf_ranges :: "bool \<Rightarrow> elf_Section list \<Rightarrow> elf_Symbol list \<Rightarrow> funcRange list" where
  "elf_ranges reloc secs [] = []"
| "elf_ranges reloc secs (s # syms) =
     (if (sym_Info s AND 0xF) \<noteq> 2 \<or> sym_Section s = 0 then elf_ranges reloc secs syms
      else if reloc
      then (if sym_Section s \<ge> length secs then elf_ranges reloc secs syms
            else (let sec = secs ! sym_Section s;
                      lo = sym_Value s - sec_Addr sec + sec_Offset sec
                  in \<lparr>name = sym_Name s, lowpc = lo, highpc = lo + sym_Size s, demangled = False\<rparr>
                     # elf_ranges reloc secs syms))
      else \<lparr>name = sym_Name s, lowpc = sym_Value s, highpc = sym_Value s + sym_Size s,
             demangled = False\<rparr>
           # elf_ranges reloc secs syms)"

definition elfFuncTable :: "env \<Rightarrow> string \<Rightarrow> elf_File \<Rightarrow> (funcRange list option \<times> bool) outcome" where
  "elfFuncTable E filename elff =
     (case elf_Type elff of
        ET_OTHER \<Rightarrow> Ret (None, False)
      | t \<Rightarrow>
          (let reloc = (t = ET_DYN)
           in case elf_Symbols elff of
                SymbolsError err \<Rightarrow> Abort LogFatal
              | ErrNoSymbols \<Rightarrow> Ret (None, False)
              | Symbols syms \<Rightarrow>
                  Ret (Some (setFuncHighPCs (sort_Sort E (elf_ranges reloc (Sections elff) syms))),
                       reloc)))"

section \<open>newSymbolicExtra\<close>

text \<open>
  Lines 144 and 145 build both tables into \<^verbatim>\<open>extra\<close>, lines 147 to 151 build them again
  into the struct that is returned; \<^verbatim>\<open>dwarfLineTable\<close> can end the process in either call.
\<close>

definition newSymbolicExtra :: "env \<Rightarrow> string \<Rightarrow> (error + symbolicExtra) outcome" where
  "newSymbolicExtra E filename =
     (case elf_Open E filename of
        Inl err \<Rightarrow> Ret (Inl (ErrLoadingELF filename err))
      | Inr elff \<Rightarrow>
          (let extra = \<lparr>functab = None, linetab = None, isReloc = False\<rparr>
           in if elf_Type elff = ET_EXEC \<and> has_debug_info elff
              then (case elf_DWARF elff of
                      Inl err \<Rightarrow> Ret (Inl (ErrLoadingDWARF filename err))
                    | Inr dwarff \<Rightarrow>
                        (case dwarfLineTable dwarff of
                           Abort a \<Rightarrow> Abort a
                         | Ret lt0 \<Rightarrow>
                             (case dwarfLineTable dwarff of
                                Abort a \<Rightarrow> Abort a
                              | Ret lt \<Rightarrow>
                                  Ret (Inr \<lparr>functab = dwarfFuncTable E dwarff, linetab = Some lt,
                                            isReloc = False\<rparr>))))
              else if functab extra = None
              then (case elfFuncTable E filename elff of
                      Abort a \<Rightarrow> Abort a
                    | Ret (ft, r) \<Rightarrow> Ret (Inr (extra\<lparr>functab := ft, isReloc := r\<rparr>)))
              else Ret (Inr extra)))"

section \<open>newKallsyms\<close>

definition is_hex :: "char \<Rightarrow> bool" where
  "is_hex c \<longleftrightarrow> c \<in> set ''0123456789abcdefABCDEF''"

definition hex_val :: "char \<Rightarrow> nat" where
  "hex_val c =
     (let n = of_char c :: nat
      in if 48 \<le> n \<and> n \<le> 57 then n - 48
         else if 97 \<le> n \<and> n \<le> 102 then n - 87
         else n - 55)"

text \<open>
  \<^verbatim>\<open>strconv.ParseUint(s, 16, 64)\<close> with its error dropped (\<^verbatim>\<open>addr, _ :=\<close>): 0 on the empty
  string or a bad digit, the largest \<^verbatim>\<open>uint64\<close> when the value does not fit.
\<close>

definition ParseUint_16_64 :: "string \<Rightarrow> u64" where
  "ParseUint_16_64 s =
     (if s = [] \<or> \<not> list_all is_hex s then 0
      else (let v = foldl (\<lambda>a c. a * 16 + hex_val c) 0 s
            in if v \<ge> 2 ^ 64 then - 1 else of_nat v))"

text \<open>
  \<^verbatim>\<open>kallsymsRe.FindStringSubmatch\<close> for \<^verbatim>\<open>"^([0-9a-fA-F]*) +(.) (.*)"\<close>: the groups 1, 2
  and 3 of the leftmost-first match. The first group is the longest run of hex digits
  (a shorter one would have to be followed by a space); \<open>kallsymsRe_spaces k\<close> lets the
  greedy \<^verbatim>\<open>" +"\<close> take \<open>k\<close> spaces, then fewer; \<^verbatim>\<open>.\<close> takes any character but a newline.
  A line is a list of bytes, and \<^verbatim>\<open>.\<close> takes one: where Go would take a character of
  several bytes, \<^verbatim>\<open>subs[2][0]\<close> is its first byte, which is neither \<open>t\<close> nor \<open>T\<close>, and the
  line yields no range here as there.
\<close>

fun kallsymsRe_spaces :: "nat \<Rightarrow> string \<Rightarrow> (char \<times> string) option" where
  "kallsymsRe_spaces 0 rest = None"
| "kallsymsRe_spaces (Suc k) rest =
     (case drop (Suc k) rest of
        c # sp # nm \<Rightarrow>
          if c \<noteq> CHR 0x0A \<and> sp = CHR '' '' then Some (c, takeWhile (\<lambda>x. x \<noteq> CHR 0x0A) nm)
          else kallsymsRe_spaces k rest
      | _ \<Rightarrow> kallsymsRe_spaces k rest)"

definition kallsymsRe :: "string \<Rightarrow> (string \<times> char \<times> string) option" where
  "kallsymsRe line =
     (let hex = takeWhile is_hex line;
          rest = dropWhile is_hex line;
          n = length (takeWhile (\<lambda>c. c = CHR '' '') rest)
      in case kallsymsRe_spaces n rest of
           None \<Rightarrow> None
         | Some (typ, nm) \<Rightarrow> Some (hex, typ, nm))"

text \<open>The loop \<^verbatim>\<open>for scanner.Scan()\<close> over the lines of the file.\<close>

fun kallsyms_ranges :: "string list \<Rightarrow> funcRange list" where
  "kallsyms_ranges [] = []"
| "kallsyms_ranges (line # rest) =
     (case kallsymsRe line of
        None \<Rightarrow> kallsyms_ranges rest
      | Some (hex, typ, nm) \<Rightarrow>
          if \<not> (typ = CHR ''t'' \<or> typ = CHR ''T'') then kallsyms_ranges rest
          else (let addr = ParseUint_16_64 hex
                in \<lparr>name = nm, lowpc = addr, highpc = addr, demangled = True\<rparr> # kallsyms_ranges rest))"

definition newKallsyms :: "env \<Rightarrow> string \<Rightarrow> error + symbolicExtra" where
  "newKallsyms E filename =
     (case os_Open E filename of
        Inl err \<Rightarrow> Inl (ErrLoadingKallsyms filename err)
      | Inr f \<Rightarrow>
          (let functab0 = kallsyms_ranges (scan_Text f)
           in case scan_Err f of
                Some err \<Rightarrow> Inl (ErrScanner err)
              | None \<Rightarrow>
                  Inr \<lparr>functab = Some (setFuncHighPCs (sort_Sort E functab0)), linetab = None,
                       isReloc = False\<rparr>))"

section \<open>getSymbolicExtra\<close>

text \<open>
  A build ID record of \<^verbatim>\<open>session.File.Meta.BuildIDs\<close>: the file name and the build ID
  as \<^verbatim>\<open>bid.BuildID.String()\<close> prints it.
\<close>

record BuildIDInfo =
  bid_Filename :: string
  bid_BuildID :: string

text \<open>
  The part of \<^verbatim>\<open>Session\<close> that symbolize.go touches: the build IDs and the entry of
  \<^verbatim>\<open>session.Extra\<close> under \<^verbatim>\<open>symbolicExtraKey\<close>. The entry is \<open>None\<close> while the type assertion
  \<^verbatim>\<open>.(map[string]*symbolicExtra)\<close> fails. In the map a nil pointer is \<open>Some None\<close>. Each
  pointer stored is fresh, so the map holds the tables themselves and \<open>Symbolize\<close> writes
  back what \<open>findIP\<close> changed behind the pointer.
\<close>

record session =
  BuildIDs :: "BuildIDInfo list"
  Extra_symbolicExtra :: "(string \<rightharpoonup> symbolicExtra option) option"

text \<open>
  What a call does besides returning: \<open>Load filename path\<close> when it hands \<open>path\<close> to a loader
  on behalf of the table key \<open>filename\<close>, and \<open>Log err\<close> for \<^verbatim>\<open>log.Println(err)\<close>.
\<close>

datatype event = Load string string | Log error

text \<open>
  The loop \<^verbatim>\<open>for _, bid := range session.File.Meta.BuildIDs\<close>. \<^verbatim>\<open>extra\<close> is nil when the loop
  starts and after every failed attempt; the slice \<^verbatim>\<open>bid.BuildID.String()[2:]\<close> panics on a
  string shorter than 2.
\<close>

fun buildID_loop ::
  "env \<Rightarrow> bool \<Rightarrow> string \<Rightarrow> BuildIDInfo list \<Rightarrow> (symbolicExtra option \<times> event list) outcome"
where
  "buildID_loop E isKallsyms filename [] = Ret (None, [])"
| "buildID_loop E isKallsyms filename (bid # bids) =
     (if bid_Filename bid = filename
      then (if length (bid_BuildID bid) < 2 then Abort SliceBoundsPanic
            else (let nfilename = buildIDDir E @ ''/.build-id/'' @ take 2 (bid_BuildID bid) @ ''/''
                                  @ drop 2 (bid_BuildID bid)
                  in case (if isKallsyms then Ret (newKallsyms E nfilename)
                           else newSymbolicExtra E nfilename) of
                       Abort a \<Rightarrow> Abort a
                     | Ret (Inr extra) \<Rightarrow> Ret (Some extra, [Load filename nfilename])
                     | Ret (Inl err) \<Rightarrow>
                         (case buildID_loop E isKallsyms filename bids of
                            Abort a \<Rightarrow> Abort a
                          | Ret (extra, evs) \<Rightarrow> Ret (extra, Load filename nfilename # evs))))
      else buildID_loop E isKallsyms filename bids)"

text \<open>The key of the memoization table: the file name after the kallsyms special case.\<close>

definition table_key :: "string \<Rightarrow> string" where
  "table_key filename =
     (if prefix ''[kernel.kallsyms]'' filename then ''[kernel.kallsyms]'' else filename)"

text \<open>
  \<^verbatim>\<open>func getSymbolicExtra(session *Session, filename string) *symbolicExtra\<close>. The nil stored at
  line 90 is overwritten at line 119 and no call in between reads the map.
\<close>

definition getSymbolicExtra ::
  "env \<Rightarrow> session \<Rightarrow> string \<Rightarrow> (session \<times> symbolicExtra option \<times> event list) outcome"
where
  "getSymbolicExtra E session0 filename0 =
     (let tables = (case Extra_symbolicExtra session0 of Some t \<Rightarrow> t | None \<Rightarrow> Map.empty);
          session1 = session0\<lparr>Extra_symbolicExtra := Some tables\<rparr>;
          isKallsyms = prefix ''[kernel.kallsyms]'' filename0;
          filename = table_key filename0
      in case tables filename of
           Some extra \<Rightarrow> Ret (session1, extra, [])
         | None \<Rightarrow>
             (case buildID_loop E isKallsyms filename (BuildIDs session1) of
                Abort a \<Rightarrow> Abort a
              | Ret (extra, evs) \<Rightarrow>
                  (case (if extra = None
                         then (case newSymbolicExtra E filename of
                                 Abort a \<Rightarrow> Abort a
                               | Ret (Inl err) \<Rightarrow> Ret (None, evs @ [Load filename filename, Log err])
                               | Ret (Inr e) \<Rightarrow> Ret (Some e, evs @ [Load filename filename]))
                         else Ret (extra, evs)) of
                     Abort a \<Rightarrow> Abort a
                   | Ret (extra, evs) \<Rightarrow>
                       Ret (session1\<lparr>Extra_symbolicExtra := Some (tables(filename \<mapsto> extra))\<rparr>,
                            extra, evs))))"

section \<open>Symbolize\<close>

text \<open>
  \<^verbatim>\<open>func Symbolize(session *Session, mmap *Mmap, ip uint64, out *Symbolic) bool\<close>: the session
  and \<^verbatim>\<open>*out\<close> after the call, the boolean returned, and the events of the call.
\<close>

definition Symbolize ::
  "env \<Rightarrow> session \<Rightarrow> Mmap \<Rightarrow> u64 \<Rightarrow> Symbolic \<Rightarrow> (session \<times> Symbolic \<times> bool \<times> event list) outcome"
where
  "Symbolize E session0 mmap ip out =
     (case getSymbolicExtra E session0 (Filename mmap) of
        Abort a \<Rightarrow> Abort a
      | Ret (session1, None, evs) \<Rightarrow> Ret (session1, out, False, evs)
      | Ret (session1, Some s, evs) \<Rightarrow>
          (let (s1, f, l) = findIP (demangle_Filter E) s mmap ip;
               out1 = (case f of
                         None \<Rightarrow> out\<lparr>FuncName := []\<rparr>
                       | Some i \<Rightarrow> out\<lparr>FuncName := name (the (functab s1) ! i)\<rparr>);
               out2 = (case l of
                         None \<Rightarrow> out1\<lparr>Line := zeroLineEntry\<rparr>
                       | Some e \<Rightarrow> out1\<lparr>Line := e\<rparr>);
               tables = the (Extra_symbolicExtra session1)
           in Ret (session1\<lparr>Extra_symbolicExtra :=
                               Some (tables(table_key (Filename mmap) \<mapsto> Some s1))\<rparr>,
                   out2, True, evs)))"

section \<open>Sequences of calls\<close>



section \<open>The searches of findIP, and what the specification calls them\<close>

text \<open>Lines 208 to 211: the address the function search uses.\<close>

definition translated_address :: "symbolicExtra \<Rightarrow> Mmap \<Rightarrow> u64 \<Rightarrow> u64" where
  "translated_address s mmap ip = (if isReloc s then ip - Addr mmap + FileOffset mmap else ip)"

text \<open>Lines 212 to 215 at an address \<open>a\<close>: the index of the range that is accepted.\<close>

definition range_search :: "funcRange list \<Rightarrow> u64 \<Rightarrow> nat option" where
  "range_search ft a =
     (let i = sort_Search (length ft) (\<lambda>i. a < highpc (ft ! i))
      in if i < length ft \<and> lowpc (ft ! i) \<le> a \<and> a < highpc (ft ! i) then Some i else None)"

text \<open>Lines 225 to 230 at an address \<open>a\<close>.\<close>

definition line_search :: "LineEntry list \<Rightarrow> u64 \<Rightarrow> LineEntry option" where
  "line_search lt a =
     (let i = sort_Search (length lt) (\<lambda>i. a < Address (lt ! i))
      in if i \<noteq> 0 \<and> \<not> EndSequence (lt ! (i - 1)) then Some (lt ! (i - 1)) else None)"

text \<open>An address lies in the half-open interval of a range.\<close>

definition in_range :: "funcRange \<Rightarrow> u64 \<Rightarrow> bool" where
  "in_range r a \<longleftrightarrow> lowpc r \<le> a \<and> a < highpc r"

text \<open>
  The Range Table of the specification: intervals (\<open>low \<le> high\<close>) in ascending order that
  do not overlap, each ending no later than the following ones begin.
\<close>

definition range_table :: "funcRange list \<Rightarrow> bool" where
  "range_table ft \<longleftrightarrow>
     list_all (\<lambda>r. lowpc r \<le> highpc r) ft \<and> sorted_wrt (\<lambda>r r'. highpc r \<le> lowpc r') ft"

text \<open>The ranges of an Image Table; an absent Range Table has none.\<close>

definition ranges :: "symbolicExtra \<Rightarrow> funcRange list" where
  "ranges s = (case functab s of None \<Rightarrow> [] | Some ft \<Rightarrow> ft)"

text \<open>
  The line lookup in the specification's words: the entries up to the first one whose
  address exceeds the queried address, then one step back, which is accepted unless it
  is an end-of-sequence marker.
\<close>

definition spec_line_lookup :: "LineEntry list \<Rightarrow> u64 \<Rightarrow> LineEntry option" where
  "spec_line_lookup lt a =
     (let before = takeWhile (\<lambda>e. \<not> a < Address e) lt
      in if before = [] \<or> EndSequence (last before) then None else Some (last before))"

text \<open>
  Gap filling in the specification's words: a range whose high equals its low is
  extended to the next range's low address, or to \<open>low + 1\<close> for the last entry; any
  other range stays as it is.
\<close>

definition spec_fill :: "funcRange list \<Rightarrow> nat \<Rightarrow> funcRange" where
  "spec_fill ft i =
     (if highpc (ft ! i) = lowpc (ft ! i)
      then (ft ! i)\<lparr>highpc := (if Suc i < length ft then lowpc (ft ! Suc i) else lowpc (ft ! i) + 1)\<rparr>
      else ft ! i)"



text \<open>
  The Image Tables a run of the program can hold: what a loader returned, and what a
  lookup left behind in place of a table it was given.
\<close>

inductive image_table :: "symbolicExtra \<Rightarrow> bool" where
  built_from_image: "newSymbolicExtra E filename = Ret (Inr s) \<Longrightarrow> image_table s"
| built_from_kallsyms: "newKallsyms E filename = Inr s \<Longrightarrow> image_table s"
| looked_up: "image_table s \<Longrightarrow> image_table (fst (findIP dm s mmap ip))"

text \<open>
  What \<^verbatim>\<open>sort.Search\<close> promises for a monotone predicate: \<open>r\<close> is the first index at which
  the predicate holds, or \<open>n\<close> when there is none.
\<close>

definition search_post :: "nat \<Rightarrow> (nat \<Rightarrow> bool) \<Rightarrow> nat \<Rightarrow> bool" where
  "search_post n f r \<longleftrightarrow> (\<forall>k\<in>{..<r}. \<not> f k) \<and> (\<forall>k\<in>{r..<n}. f k)"

section \<open>The memoization table as the session holds it\<close>

text \<open>The map under \<^verbatim>\<open>symbolicExtraKey\<close>, empty while the session has none.\<close>

definition tables_of :: "session \<Rightarrow> (string \<rightharpoonup> symbolicExtra option)" where
  "tables_of sess = (case Extra_symbolicExtra sess of Some t \<Rightarrow> t | None \<Rightarrow> Map.empty)"



section \<open>Concrete images\<close>

text \<open>
  The end-to-end scenarios of the specification as values: an executable with debug
  information (function \<open>foo\<close> at \<open>[0x1000, 0x1010)\<close>, a line entry at \<open>0x1000\<close> for file.c:10),
  a shared object with linker symbols only (function \<open>bar\<close>, section-relative value
  \<open>0x1050\<close>, size \<open>0x10\<close>, in a section at address \<open>0x1000\<close> and file offset \<open>0x200\<close>), a
  kernel-symbol file and one that fails while it is read, an executable whose debug
  information does not load, one whose line-number program does not decode, one whose
  symbol table does not read, a shared object without symbol table, and an executable
  whose only subprogram has a zero-width range.
\<close>

definition demo_line :: LineEntry where
  "demo_line = zeroLineEntry\<lparr>Address := 0x1000, File := Some ''file.c'', LineNo := 10, IsStmt := True\<rparr>"

definition demo_line_end :: LineEntry where
  "demo_line_end = zeroLineEntry\<lparr>Address := 0x1010, EndSequence := True\<rparr>"

definition demo_unit :: "line_Reader \<Rightarrow> dwarf_Node list \<Rightarrow> dwarf_Node" where
  "demo_unit lr children =
     Node \<lparr>Tag = TagCompileUnit, AttrLinkageName = None, AttrName = Some ''file.c'',
           AttrLowpc = None, AttrHighpc = HighpcOther, LineProgram = lr\<rparr> children"

definition demo_subprogram :: "string \<Rightarrow> u64 \<Rightarrow> u64 \<Rightarrow> dwarf_Node" where
  "demo_subprogram n lo len =
     Node \<lparr>Tag = TagSubprogram, AttrLinkageName = None, AttrName = Some n,
           AttrLowpc = Some lo, AttrHighpc = HighpcInt64 len, LineProgram = LineReaderNil\<rparr> []"

definition foo_elf :: elf_File where
  "foo_elf =
     \<lparr>elf_Type = ET_EXEC, has_debug_info = True,
      elf_DWARF = Inr [demo_unit (LineReader [demo_line, demo_line_end] None)
                         [demo_subprogram ''foo'' 0x1000 0x10]],
      Sections = [], elf_Symbols = ErrNoSymbols\<rparr>"

definition bar_elf :: elf_File where
  "bar_elf =
     \<lparr>elf_Type = ET_DYN, has_debug_info = False, elf_DWARF = Inl ''no DWARF'',
      Sections = [\<lparr>sec_Addr = 0, sec_Offset = 0\<rparr>, \<lparr>sec_Addr = 0x1000, sec_Offset = 0x200\<rparr>],
      elf_Symbols = Symbols [\<lparr>sym_Name = ''bar'', sym_Info = 0x12, sym_Section = 1,
                              sym_Value = 0x1050, sym_Size = 0x10\<rparr>]\<rparr>"

definition bad_lines_elf :: elf_File where
  "bad_lines_elf =
     \<lparr>elf_Type = ET_EXEC, has_debug_info = True,
      elf_DWARF = Inr [demo_unit (LineReader [demo_line] (Some ''bad opcode''))
                         [demo_subprogram ''foo'' 0x1000 0x10]],
      Sections = [], elf_Symbols = ErrNoSymbols\<rparr>"

definition bad_symbols_elf :: elf_File where
  "bad_symbols_elf =
     \<lparr>elf_Type = ET_EXEC, has_debug_info = False, elf_DWARF = Inl ''no DWARF'',
      Sections = [], elf_Symbols = SymbolsError ''cannot load symbol section''\<rparr>"

definition zero_width_elf :: elf_File where
  "zero_width_elf =
     \<lparr>elf_Type = ET_EXEC, has_debug_info = True,
      elf_DWARF = Inr [demo_unit LineReaderNil [demo_subprogram ''empty'' 0x10 0]],
      Sections = [], elf_Symbols = ErrNoSymbols\<rparr>"

definition bad_dwarf_elf :: elf_File where
  "bad_dwarf_elf =
     \<lparr>elf_Type = ET_EXEC, has_debug_info = True, elf_DWARF = Inl ''decoding dwarf section info'',
      Sections = [], elf_Symbols = ErrNoSymbols\<rparr>"

definition stripped_elf :: elf_File where
  "stripped_elf =
     \<lparr>elf_Type = ET_DYN, has_debug_info = False, elf_DWARF = Inl ''no DWARF'',
      Sections = [], elf_Symbols = ErrNoSymbols\<rparr>"

definition cut_kallsyms :: text_File where
  "cut_kallsyms =
     \<lparr>scan_Text = [''ffffffff81000000 T start_kernel''], scan_Err = Some ''read error''\<rparr>"

definition demo_kallsyms :: text_File where
  "demo_kallsyms =
     \<lparr>scan_Text = [''ffffffff81000100 t helper'', ''ffffffff81000000 T start_kernel'',
                   ''ffffffff82000000 D some_data'', ''not a symbol line''],
      scan_Err = None\<rparr>"

definition demo_env :: env where
  "demo_env =
     \<lparr>demangle_Filter = (\<lambda>n. n @ ''()''),
      sort_Sort = sort_key lowpc,
      elf_Open = (\<lambda>p. if p = ''/bin/foo'' then Inr foo_elf
                       else if p = ''/lib/bar.so'' then Inr bar_elf
                       else if p = ''/bin/badlines'' then Inr bad_lines_elf
                       else if p = ''/bin/badsyms'' then Inr bad_symbols_elf
                       else if p = ''/bin/empty'' then Inr zero_width_elf
                       else if p = ''/bin/baddwarf'' then Inr bad_dwarf_elf
                       else if p = ''/lib/stripped.so'' then Inr stripped_elf
                       else Inl ''no such file or directory''),
      os_Open = (\<lambda>p. if p = ''/home/u/.debug/.build-id/ab/cdef'' then Inr demo_kallsyms
                      else if p = ''/home/u/.debug/.build-id/cu/t'' then Inr cut_kallsyms
                      else Inl ''no such file or directory''),
      buildIDDir = ''/home/u/.debug''\<rparr>"

definition demo_session :: session where
  "demo_session =
     \<lparr>BuildIDs = [\<lparr>bid_Filename = ''[kernel.kallsyms]'', bid_BuildID = ''abcdef''\<rparr>],
      Extra_symbolicExtra = None\<rparr>"

definition demo_mmap :: "string \<Rightarrow> Mmap" where
  "demo_mmap filename = \<lparr>Filename = filename, Addr = 0x7000, FileOffset = 0x200\<rparr>"

definition demo_out :: Symbolic where
  "demo_out = \<lparr>FuncName = ''?'', Line = zeroLineEntry\<rparr>"

text \<open>
  The Image Tables the loaders build from \<open>/bin/foo\<close>, \<open>/lib/bar.so\<close> and the kernel-symbol
  file, and two ranges with a gap between them.
\<close>

definition foo_table :: symbolicExtra where
  "foo_table =
     \<lparr>functab = Some [\<lparr>name = ''foo'', lowpc = 0x1000, highpc = 0x1010, demangled = False\<rparr>],
      linetab = Some [demo_line, demo_line_end], isReloc = False\<rparr>"

definition bar_table :: symbolicExtra where
  "bar_table =
     \<lparr>functab = Some [\<lparr>name = ''bar'', lowpc = 0x250, highpc = 0x260, demangled = False\<rparr>],
      linetab = None, isReloc = True\<rparr>"

definition kallsyms_table :: symbolicExtra where
  "kallsyms_table =
     \<lparr>functab = Some
        [\<lparr>name = ''start_kernel'', lowpc = 0xffffffff81000000, highpc = 0xffffffff81000100,
           demangled = True\<rparr>,
         \<lparr>name = ''helper'', lowpc = 0xffffffff81000100, highpc = 0xffffffff81000101,
           demangled = True\<rparr>],
      linetab = None, isReloc = False\<rparr>"

definition kallsyms_sorted :: "funcRange list" where
  "kallsyms_sorted =
     [\<lparr>name = ''start_kernel'', lowpc = 0xffffffff81000000, highpc = 0xffffffff81000000,
        demangled = True\<rparr>,
      \<lparr>name = ''helper'', lowpc = 0xffffffff81000100, highpc = 0xffffffff81000100,
        demangled = True\<rparr>]"

text \<open>
  An Image Table value with a Line Table and the relocation flag set. No loader builds
  it; \<open>findIP\<close> accepts it like any other value of the type.
\<close>

definition reloc_lines_table :: symbolicExtra where
  "reloc_lines_table =
     \<lparr>functab = Some [\<lparr>name = ''foo'', lowpc = 0x1000, highpc = 0x1010, demangled = False\<rparr>],
      linetab = Some [demo_line, demo_line_end], isReloc = True\<rparr>"

definition gap_ranges :: "funcRange list" where
  "gap_ranges =
     [\<lparr>name = ''a'', lowpc = 0, highpc = 5, demangled = False\<rparr>,
      \<lparr>name = ''b'', lowpc = 10, highpc = 15, demangled = False\<rparr>]"

section \<open>Locating an image\<close>

text \<open>
  The path in the build ID cache that line 99 derives from a build ID record, and
  whether the loader chosen at lines 100 to 104 returns an Image Table for a path.
\<close>

definition cache_path :: "env \<Rightarrow> BuildIDInfo \<Rightarrow> string" where
  "cache_path E bid =
     buildIDDir E @ ''/.build-id/'' @ take 2 (bid_BuildID bid) @ ''/'' @ drop 2 (bid_BuildID bid)"

definition loads :: "env \<Rightarrow> bool \<Rightarrow> string \<Rightarrow> bool" where
  "loads E isKallsyms path =
     (case (if isKallsyms then Ret (newKallsyms E path) else newSymbolicExtra E path) of
        Ret (Inr extra) \<Rightarrow> True
      | _ \<Rightarrow> False)"

text \<open>
  An image can be located for a file name: the cache path of some matching build ID
  record loads, or the path as recorded loads as an ELF image.
\<close>

definition image_located :: "env \<Rightarrow> session \<Rightarrow> string \<Rightarrow> bool" where
  "image_located E sess filename \<longleftrightarrow>
     (\<exists>bid\<in>set (BuildIDs sess).
        bid_Filename bid = table_key filename \<and>
        loads E (prefix ''[kernel.kallsyms]'' filename) (cache_path E bid)) \<or>
     loads E False (table_key filename)"

text \<open>
  A file system on which no image opens, and the session after \<open>/bin/foo\<close> was asked for on
  it: the nil sentinel is stored.
\<close>

definition empty_env :: env where
  "empty_env = demo_env\<lparr>elf_Open := (\<lambda>p. Inl ''no such file or directory'')\<rparr>"

definition missed_session :: session where
  "missed_session = demo_session\<lparr>Extra_symbolicExtra := Some [''/bin/foo'' \<mapsto> None]\<rparr>"

section \<open>Compilation units and their line-number programs\<close>

text \<open>
  The compilation unit entries \<open>dwarfLineTable\<close> can reach: those of the top level and,
  below a compilation unit, those among its children. A line-number program fails when
  \<^verbatim>\<open>LineReader\<close> returns an error or \<^verbatim>\<open>lr.Next\<close> returns an error other than \<^verbatim>\<open>io.EOF\<close>.
\<close>

fun dwarf_units :: "dwarf_Node \<Rightarrow> dwarf_Entry list" where
  "dwarf_units (Node ent children) =
     (if Tag ent = TagCompileUnit then ent # concat (map dwarf_units children) else [])"

definition line_program_fails :: "line_Reader \<Rightarrow> bool" where
  "line_program_fails lr =
     (case lr of
        LineReaderError err \<Rightarrow> True
      | LineReaderNil \<Rightarrow> False
      | LineReader lents err \<Rightarrow> err \<noteq> None)"

section \<open>Calls that return\<close>



section \<open>Lemmas\<close>

subsection \<open>sort.Search returns the first index of a monotone predicate\<close>

lemma sort_Search_loop_done: "\<not> i < j \<Longrightarrow> sort_Search_loop f i j = i"
  by (subst sort_Search_loop.simps) simp

lemma sort_Search_loop_right:
  "i < j \<Longrightarrow> \<not> f ((i + j) div 2) \<Longrightarrow> sort_Search_loop f i j = sort_Search_loop f ((i + j) div 2 + 1) j"
  by (subst sort_Search_loop.simps) (simp add: Let_def)

lemma sort_Search_loop_left:
  "i < j \<Longrightarrow> f ((i + j) div 2) \<Longrightarrow> sort_Search_loop f i j = sort_Search_loop f i ((i + j) div 2)"
  by (subst sort_Search_loop.simps) (simp add: Let_def)

lemma sort_Search_loop_mono:
  assumes mono: "\<And>a b. a \<le> b \<Longrightarrow> b < n \<Longrightarrow> f a \<Longrightarrow> f b"
  shows "i \<le> j \<Longrightarrow> j \<le> n \<Longrightarrow> (\<forall>k. k < i \<longrightarrow> \<not> f k) \<Longrightarrow> (\<forall>k. j \<le> k \<and> k < n \<longrightarrow> f k) \<Longrightarrow>
         i \<le> sort_Search_loop f i j \<and> sort_Search_loop f i j \<le> j \<and>
         search_post n f (sort_Search_loop f i j)"
  using mono
proof (induction f i j rule: sort_Search_loop.induct)
  case (1 f i j)
  show ?case
  proof (cases "i < j")
    case False
    then have "sort_Search_loop f i j = i" by (rule sort_Search_loop_done)
    moreover have "i = j" using False "1.prems"(1) by simp
    ultimately show ?thesis using "1.prems"(3,4) by (simp add: search_post_def)
  next
    case True
    define h where "h = (i + j) div 2"
    have hb: "i \<le> h" "h < j" using True by (simp_all add: h_def)
    have hn: "h < n" using hb "1.prems"(2) by simp
    show ?thesis
    proof (cases "f h")
      case fh: True
      have eq: "sort_Search_loop f i j = sort_Search_loop f i h"
        using True fh unfolding h_def by (rule sort_Search_loop_left)
      have up: "\<forall>k. h \<le> k \<and> k < n \<longrightarrow> f k"
        using fh "1.prems"(5) by blast
      have nn: "\<not> \<not> f h" using fh by simp
      have hle: "h \<le> n" using hn by simp
      have "i \<le> sort_Search_loop f i h \<and> sort_Search_loop f i h \<le> h \<and>
         search_post n f (sort_Search_loop f i h)"
        by (rule "1.IH"(2)[OF True h_def nn hb(1) hle "1.prems"(3) up "1.prems"(5)])
      then show ?thesis using eq hb by simp
    next
      case nfh: False
      have eq: "sort_Search_loop f i j = sort_Search_loop f (h + 1) j"
        using True nfh unfolding h_def by (rule sort_Search_loop_right)
      have lo: "\<forall>k. k < h + 1 \<longrightarrow> \<not> f k"
      proof (intro allI impI)
        fix k assume "k < h + 1"
        then have "k \<le> h" by simp
        then show "\<not> f k" using nfh "1.prems"(5)[of k h] hn by blast
      qed
      have h1: "h + 1 \<le> j" using hb by simp
      have "h + 1 \<le> sort_Search_loop f (h + 1) j \<and> sort_Search_loop f (h + 1) j \<le> j \<and>
         search_post n f (sort_Search_loop f (h + 1) j)"
        by (rule "1.IH"(1)[OF True h_def nfh h1 "1.prems"(2) lo "1.prems"(4) "1.prems"(5)])
      then show ?thesis using eq hb by simp
    qed
  qed
qed

lemma sort_Search_first:
  assumes "\<And>a b. a \<le> b \<Longrightarrow> b < n \<Longrightarrow> f a \<Longrightarrow> f b"
  shows "sort_Search n f \<le> n \<and> search_post n f (sort_Search n f)"
proof -
  have "\<forall>k. n \<le> k \<and> k < n \<longrightarrow> f k" by auto
  then show ?thesis
    using sort_Search_loop_mono[of n f 0 n] assms unfolding sort_Search_def by blast
qed

subsection \<open>The three results of findIP\<close>

lemma findIP_func:
  "fst (snd (findIP dm s m ip)) =
     (case functab s of None \<Rightarrow> None | Some ft \<Rightarrow> range_search ft (translated_address s m ip))"
  by (simp add: findIP_def range_search_def translated_address_def Let_def split: option.splits)

lemma findIP_line:
  "snd (snd (findIP dm s m ip)) =
     (case linetab s of None \<Rightarrow> None
      | Some lt \<Rightarrow> line_search lt (if functab s = None then ip else translated_address s m ip))"
  by (simp add: findIP_def line_search_def translated_address_def Let_def split: option.splits)

lemma findIP_table:
  "fst (findIP dm s m ip) =
     (case functab s of None \<Rightarrow> s
      | Some ft \<Rightarrow>
          (case range_search ft (translated_address s m ip) of None \<Rightarrow> s
           | Some i \<Rightarrow> if demangled (ft ! i) then s
                       else s\<lparr>functab := Some (ft[i := (ft ! i)\<lparr>name := dm (name (ft ! i)), demangled := True\<rparr>])\<rparr>))"
  by (simp add: findIP_def range_search_def translated_address_def Let_def split: option.splits)

subsection \<open>The function search on a Range Table\<close>

lemma range_search_Some:
  "range_search ft a = Some i \<Longrightarrow> i < length ft \<and> in_range (ft ! i) a"
  by (simp add: range_search_def in_range_def Let_def split: if_splits)

lemma range_table_nth:
  assumes "range_table ft" "i < j" "j < length ft"
  shows "highpc (ft ! i) \<le> lowpc (ft ! j)"
  using assms by (simp add: range_table_def sorted_wrt_iff_nth_less)

lemma range_table_low_high:
  assumes "range_table ft" "i < length ft"
  shows "lowpc (ft ! i) \<le> highpc (ft ! i)"
  using assms by (simp add: range_table_def list_all_length)

lemma range_table_high_mono:
  assumes "range_table ft" "i \<le> j" "j < length ft"
  shows "highpc (ft ! i) \<le> highpc (ft ! j)"
proof (cases "i = j")
  case True then show ?thesis by simp
next
  case False
  then have "i < j" using assms(2) by simp
  then have "highpc (ft ! i) \<le> lowpc (ft ! j)" using assms by (simp add: range_table_nth)
  also have "\<dots> \<le> highpc (ft ! j)" using assms by (simp add: range_table_low_high)
  finally show ?thesis .
qed

lemma range_search_hit:
  assumes rt: "range_table ft" and i: "i < length ft" and inr: "in_range (ft ! i) a"
  shows "range_search ft a = Some i"
proof -
  let ?P = "\<lambda>k. a < highpc (ft ! k)"
  define r where "r = sort_Search (length ft) ?P"
  have mono: "\<And>x y. x \<le> y \<Longrightarrow> y < length ft \<Longrightarrow> ?P x \<Longrightarrow> ?P y"
    using range_table_high_mono[OF rt] by (meson less_le_trans)
  have post: "search_post (length ft) ?P r"
    using sort_Search_first[of "length ft" ?P, OF mono] by (simp add: r_def)
  have Pi: "?P i" using inr by (simp add: in_range_def)
  have "r \<le> i"
  proof (rule ccontr)
    assume "\<not> r \<le> i"
    then have "i < r" by simp
    then show False using post Pi by (simp add: search_post_def)
  qed
  moreover have "\<not> r < i"
  proof
    assume lt: "r < i"
    then have "?P r" using post i by (simp add: search_post_def)
    moreover have "highpc (ft ! r) \<le> lowpc (ft ! i)" using range_table_nth[OF rt lt i] .
    moreover have "lowpc (ft ! i) \<le> a" using inr by (simp add: in_range_def)
    ultimately show False by simp
  qed
  ultimately have "r = i" by simp
  then show ?thesis using i inr by (simp add: range_search_def r_def[symmetric] in_range_def)
qed

subsection \<open>What a lookup changes\<close>

lemma findIP_linetab: "linetab (fst (findIP dm s m ip)) = linetab s"
  by (simp add: findIP_table split: option.splits)

lemma findIP_isReloc: "isReloc (fst (findIP dm s m ip)) = isReloc s"
  by (simp add: findIP_table split: option.splits)



lemma findIP_ranges_nth:
  "j < length (ranges s) \<Longrightarrow>
   ranges (fst (findIP dm s m ip)) ! j =
     (if fst (snd (findIP dm s m ip)) = Some j \<and> \<not> demangled (ranges s ! j)
      then (ranges s ! j)\<lparr>name := dm (name (ranges s ! j)), demangled := True\<rparr>
      else ranges s ! j)"
  by (auto simp: findIP_table findIP_func ranges_def nth_list_update split: option.splits
      dest: range_search_Some)



subsection \<open>The invariant of the Image Tables\<close>

lemma newKallsyms_shape:
  "newKallsyms E fn = Inr s \<Longrightarrow> linetab s = None \<and> isReloc s = False \<and> functab s \<noteq> None"
  by (auto simp: newKallsyms_def Let_def split: sum.splits option.splits)

lemma newSymbolicExtra_shape:
  "newSymbolicExtra E fn = Ret (Inr s) \<Longrightarrow> linetab s \<noteq> None \<Longrightarrow> isReloc s = False"
  by (auto simp: newSymbolicExtra_def Let_def split: sum.splits option.splits outcome.splits prod.splits if_splits)

lemma image_table_inv: "image_table s \<Longrightarrow> linetab s \<noteq> None \<Longrightarrow> isReloc s = False"
proof (induction rule: image_table.induct)
  case (built_from_image E filename s)
  then show ?case by (rule newSymbolicExtra_shape)
next
  case (built_from_kallsyms E filename s)
  then show ?case by (simp add: newKallsyms_shape)
next
  case (looked_up s dm mmap ip)
  then show ?case by (simp add: findIP_linetab findIP_isReloc)
qed

subsection \<open>The line search on a sorted Line Table\<close>

lemma takeWhile_search:
  assumes "search_post (length xs) (\<lambda>k. P (xs ! k)) r" "r \<le> length xs"
  shows "takeWhile (\<lambda>x. \<not> P x) xs = take r xs"
  using assms by (intro takeWhile_eq_take_P_nth) (auto simp: search_post_def)

lemma line_search_spec:
  assumes "sorted (map Address lt)"
  shows "line_search lt a = spec_line_lookup lt a"
proof -
  let ?P = "\<lambda>k. a < Address (lt ! k)"
  define r where "r = sort_Search (length lt) ?P"
  have mono: "\<And>x y. x \<le> y \<Longrightarrow> y < length lt \<Longrightarrow> ?P x \<Longrightarrow> ?P y"
  proof -
    fix x y assume xy: "x \<le> y" "y < length lt" "a < Address (lt ! x)"
    have "Address (lt ! x) \<le> Address (lt ! y)"
      using assms xy(1,2) sorted_nth_mono[of "map Address lt" x y] by simp
    then show "a < Address (lt ! y)" using xy(3) by simp
  qed
  have post: "r \<le> length lt \<and> search_post (length lt) ?P r"
    using sort_Search_first[of "length lt" ?P, OF mono] by (simp add: r_def)
  have tw: "takeWhile (\<lambda>e. \<not> a < Address e) lt = take r lt"
    using takeWhile_search[of lt "\<lambda>e. a < Address e" r] post by simp
  show ?thesis
  proof (cases "r = 0")
    case True
    then show ?thesis by (simp add: line_search_def spec_line_lookup_def tw r_def[symmetric])
  next
    case False
    then have "take r lt \<noteq> []" using post by auto
    moreover have "last (take r lt) = lt ! (r - 1)"
    proof -
      have ne: "take r lt \<noteq> []" using False post by auto
      have len: "length (take r lt) = r" using post by simp
      have "last (take r lt) = take r lt ! (r - 1)"
        using last_conv_nth[OF ne] len by simp
      also have "\<dots> = lt ! (r - 1)" using False by simp
      finally show ?thesis .
    qed
    ultimately show ?thesis using False
      by (simp add: line_search_def spec_line_lookup_def tw r_def[symmetric] Let_def)
  qed
qed

subsection \<open>setFuncHighPCs, index by index\<close>

lemma setFuncHighPCs_prefix:
  "k \<le> length ft \<Longrightarrow>
   length (fold setFuncHighPCs_step [0..<k] ft) = length ft \<and>
   (\<forall>i. i < length ft \<longrightarrow>
      fold setFuncHighPCs_step [0..<k] ft ! i = (if i < k then spec_fill ft i else ft ! i))"
proof (induction k)
  case 0
  then show ?case by simp
next
  case (Suc k)
  define mid where "mid = fold setFuncHighPCs_step [0..<k] ft"
  have k: "k < length ft" using Suc.prems by simp
  have len: "length mid = length ft"
    and nth: "\<And>i. i < length ft \<Longrightarrow> mid ! i = (if i < k then spec_fill ft i else ft ! i)"
    using Suc.IH k by (simp_all add: mid_def)
  have midk: "mid ! k = ft ! k" using nth[OF k] by simp
  have midk1: "Suc k < length ft \<Longrightarrow> mid ! Suc k = ft ! Suc k" using nth[of "Suc k"] by simp
  have step: "setFuncHighPCs_step k mid = mid[k := spec_fill ft k]"
  proof (cases "highpc (ft ! k) = lowpc (ft ! k)")
    case False
    then have "spec_fill ft k = mid ! k" by (simp add: spec_fill_def midk)
    then have "mid[k := spec_fill ft k] = mid" by simp
    then show ?thesis using False by (simp add: setFuncHighPCs_step_def midk)
  next
    case True
    show ?thesis
    proof (cases "Suc k < length ft")
      case True
      then have ne: "k \<noteq> length mid - 1" using len by arith
      have z: "highpc (mid ! k) = lowpc (mid ! k)"
        using \<open>highpc (ft ! k) = lowpc (ft ! k)\<close> by (simp add: midk)
      have "setFuncHighPCs_step k mid = mid[k := (mid ! k)\<lparr>highpc := lowpc (mid ! (k + 1))\<rparr>]"
        unfolding setFuncHighPCs_step_def using ne z by simp
      also have "\<dots> = mid[k := spec_fill ft k]"
        using True z midk1[OF True] by (simp add: spec_fill_def midk)
      finally show ?thesis .
    next
      case False
      then have eq: "k = length mid - 1" using k len by arith
      have z: "highpc (mid ! k) = lowpc (mid ! k)"
        using \<open>highpc (ft ! k) = lowpc (ft ! k)\<close> by (simp add: midk)
      have "setFuncHighPCs_step k mid = mid[k := (mid ! k)\<lparr>highpc := highpc (mid ! k) + 1\<rparr>]"
        unfolding setFuncHighPCs_step_def using eq z by simp
      also have "\<dots> = mid[k := spec_fill ft k]"
        using False z by (simp add: spec_fill_def midk)
      finally show ?thesis .
    qed
  qed
  have fold: "fold setFuncHighPCs_step [0..<Suc k] ft = mid[k := spec_fill ft k]"
    by (simp add: mid_def[symmetric] step)
  show ?case
    unfolding fold using len nth k by (auto simp: nth_list_update)
qed

lemma setFuncHighPCs_length: "length (setFuncHighPCs ft) = length ft"
  using setFuncHighPCs_prefix[of "length ft" ft] by (simp add: setFuncHighPCs_def)

lemma setFuncHighPCs_nth: "i < length ft \<Longrightarrow> setFuncHighPCs ft ! i = spec_fill ft i"
  using setFuncHighPCs_prefix[of "length ft" ft] by (simp add: setFuncHighPCs_def)

lemma spec_fill_lowpc: "lowpc (spec_fill ft i) = lowpc (ft ! i)"
  by (simp add: spec_fill_def)


lemma word_le_plus_1: "(x :: u64) \<noteq> - 1 \<Longrightarrow> x \<le> x + 1"
  using inc_less_eq_self_iff_eq[of x] by (simp add: not_le less_imp_le)

lemma setFuncHighPCs_gap:
  assumes "Suc i < length ft"
  shows "highpc (setFuncHighPCs ft ! i) = lowpc (setFuncHighPCs ft ! Suc i) \<longleftrightarrow>
         highpc (ft ! i) = lowpc (ft ! i) \<or> highpc (ft ! i) = lowpc (ft ! Suc i)"
  using assms by (simp add: setFuncHighPCs_nth spec_fill_def)

lemma setFuncHighPCs_range_table:
  assumes rt: "range_table ft"
    and lst: "ft \<noteq> [] \<Longrightarrow> highpc (last ft) = lowpc (last ft) \<Longrightarrow> lowpc (last ft) \<noteq> - 1"
  shows "range_table (setFuncHighPCs ft)"
proof -
  let ?out = "setFuncHighPCs ft"
  have len: "length ?out = length ft" by (rule setFuncHighPCs_length)
  have lh: "lowpc (?out ! i) \<le> highpc (?out ! i)" if i: "i < length ft" for i
  proof (cases "highpc (ft ! i) = lowpc (ft ! i)")
    case False
    then show ?thesis using i range_table_low_high[OF rt i]
      by (simp add: setFuncHighPCs_nth spec_fill_def)
  next
    case z: True
    show ?thesis
    proof (cases "Suc i < length ft")
      case True
      have "lowpc (ft ! i) \<le> lowpc (ft ! Suc i)"
        using range_table_nth[OF rt _ True, of i] z by simp
      then show ?thesis using i z True by (simp add: setFuncHighPCs_nth spec_fill_def)
    next
      case False
      then have il: "i = length ft - 1" using i by arith
      have ne: "ft \<noteq> []" using i by auto
      have "ft ! i = last ft" using last_conv_nth[OF ne] il by simp
      note this ne
      then have "lowpc (ft ! i) \<noteq> - 1" using lst z by simp
      then have "lowpc (ft ! i) \<le> lowpc (ft ! i) + 1" by (rule word_le_plus_1)
      then show ?thesis using i z False by (simp add: setFuncHighPCs_nth spec_fill_def)
    qed
  qed
  have hl: "highpc (?out ! i) \<le> lowpc (?out ! j)" if ij: "i < j" "j < length ft" for i j
  proof -
    have i: "i < length ft" using ij by simp
    have lj: "lowpc (?out ! j) = lowpc (ft ! j)"
      using ij by (simp add: setFuncHighPCs_nth spec_fill_lowpc)
    show ?thesis
    proof (cases "highpc (ft ! i) = lowpc (ft ! i)")
      case False
      then show ?thesis using range_table_nth[OF rt ij] i lj
        by (simp add: setFuncHighPCs_nth spec_fill_def)
    next
      case z: True
      have si: "Suc i < length ft" using ij by simp
      have hi: "highpc (?out ! i) = lowpc (ft ! Suc i)"
        using i z si by (simp add: setFuncHighPCs_nth spec_fill_def)
      show ?thesis
      proof (cases "Suc i = j")
        case True
        then show ?thesis using hi lj by simp
      next
        case False
        then have lt: "Suc i < j" using ij by simp
        have "lowpc (ft ! Suc i) \<le> highpc (ft ! Suc i)" using range_table_low_high[OF rt si] .
        also have "\<dots> \<le> lowpc (ft ! j)" using range_table_nth[OF rt lt ij(2)] .
        finally show ?thesis using hi lj by simp
      qed
    qed
  qed
  show ?thesis
    unfolding range_table_def using lh hl len
    by (simp add: list_all_length sorted_wrt_iff_nth_less)
qed

subsection \<open>The kernel-symbol parser\<close>



lemma newKallsyms_Inr:
  "newKallsyms E fn = Inr s \<longleftrightarrow>
     (\<exists>f. os_Open E fn = Inr f \<and> scan_Err f = None \<and>
          s = \<lparr>functab = Some (setFuncHighPCs (sort_Sort E (kallsyms_ranges (scan_Text f)))),
               linetab = None, isReloc = False\<rparr>)"
  by (auto simp: newKallsyms_def Let_def split: sum.splits option.splits)



subsection \<open>The loaders and their failures\<close>

lemma elfFuncTable_Some:
  "elfFuncTable E fn elff = Ret (Some t, r) \<Longrightarrow>
   \<exists>syms. elf_Symbols elff = Symbols syms \<and> r = (elf_Type elff = ET_DYN) \<and>
          t = setFuncHighPCs (sort_Sort E (elf_ranges r (Sections elff) syms))"
  by (auto simp: elfFuncTable_def Let_def split: elf_Type.splits elf_Symbols.splits)

lemma elfFuncTable_Abort:
  "elfFuncTable E fn elff = Abort a \<longleftrightarrow>
   a = LogFatal \<and> elf_Type elff \<noteq> ET_OTHER \<and> (\<exists>e. elf_Symbols elff = SymbolsError e)"
  by (auto simp: elfFuncTable_def Let_def split: elf_Type.splits elf_Symbols.splits)

lemma dwarf_lines_Abort:
  "dwarf_lines n = Abort a \<Longrightarrow> a = LogFatal"
  "dwarf_lines_list ns = Abort a \<Longrightarrow> a = LogFatal"
  by (induction n and ns rule: dwarf_lines_dwarf_lines_list.induct)
     (auto split: line_Reader.splits option.splits outcome.splits if_splits)

lemma dwarfLineTable_Abort: "dwarfLineTable d = Abort a \<Longrightarrow> a = LogFatal"
  using dwarf_lines_Abort(2)[of d a] by (simp add: dwarfLineTable_def)

lemma newSymbolicExtra_open_error:
  "elf_Open E fn = Inl e \<Longrightarrow> newSymbolicExtra E fn = Ret (Inl (ErrLoadingELF fn e))"
  by (simp add: newSymbolicExtra_def)

lemma newSymbolicExtra_dwarf_error:
  "elf_Open E fn = Inr elff \<Longrightarrow> elf_Type elff = ET_EXEC \<Longrightarrow> has_debug_info elff \<Longrightarrow>
   elf_DWARF elff = Inl e \<Longrightarrow> newSymbolicExtra E fn = Ret (Inl (ErrLoadingDWARF fn e))"
  by (simp add: newSymbolicExtra_def)

lemma newSymbolicExtra_Abort:
  "newSymbolicExtra E fn = Abort a \<longleftrightarrow>
   a = LogFatal \<and>
   (\<exists>elff. elf_Open E fn = Inr elff \<and>
      (if elf_Type elff = ET_EXEC \<and> has_debug_info elff
       then \<exists>d. elf_DWARF elff = Inr d \<and> dwarfLineTable d = Abort LogFatal
       else elf_Type elff \<noteq> ET_OTHER \<and> (\<exists>e. elf_Symbols elff = SymbolsError e)))"
proof (cases "elf_Open E fn")
  case (Inl e)
  then show ?thesis by (simp add: newSymbolicExtra_def)
next
  case (Inr elff)
  show ?thesis
  proof (cases "elf_Type elff = ET_EXEC \<and> has_debug_info elff")
    case True
    show ?thesis
    proof (cases "elf_DWARF elff")
      case (Inl e)
      then show ?thesis using Inr True by (simp add: newSymbolicExtra_def)
    next
      case d: (Inr d)
      show ?thesis
      proof (cases "dwarfLineTable d")
        case (Abort b)
        then have "b = LogFatal" by (rule dwarfLineTable_Abort)
        then show ?thesis using Inr True d Abort by (auto simp: newSymbolicExtra_def)
      next
        case (Ret lt)
        then show ?thesis using Inr True d by (simp add: newSymbolicExtra_def)
      qed
    qed
  next
    case False
    have "newSymbolicExtra E fn = Abort a \<longleftrightarrow> elfFuncTable E fn elff = Abort a"
      using Inr False by (auto simp: newSymbolicExtra_def Let_def split: outcome.splits prod.splits)
    then show ?thesis using Inr False by (auto simp: elfFuncTable_Abort)
  qed
qed

lemma newSymbolicExtra_Inr:
  "newSymbolicExtra E fn = Ret (Inr s) \<Longrightarrow>
   \<exists>elff. elf_Open E fn = Inr elff \<and>
     (if elf_Type elff = ET_EXEC \<and> has_debug_info elff
      then \<exists>d lt. elf_DWARF elff = Inr d \<and> dwarfLineTable d = Ret lt \<and>
             s = \<lparr>functab = dwarfFuncTable E d, linetab = Some lt, isReloc = False\<rparr>
      else \<exists>ft r. elfFuncTable E fn elff = Ret (ft, r) \<and>
             s = \<lparr>functab = ft, linetab = None, isReloc = r\<rparr>)"
  by (auto simp: newSymbolicExtra_def Let_def split: sum.splits outcome.splits prod.splits if_splits)

subsection \<open>The lines the pattern matches\<close>






subsection \<open>The memoization table\<close>



lemma buildID_loop_events:
  "buildID_loop E k fn bids = Ret (extra, evs) \<Longrightarrow> \<forall>ev\<in>set evs. \<exists>p. ev = Load fn p"
proof (induction bids arbitrary: extra evs)
  case Nil
  then show ?case by simp
next
  case (Cons bid bids)
  then show ?case
    by (auto simp: Let_def split: if_splits outcome.splits sum.splits prod.splits)
qed

lemma getSymbolicExtra_result:
  assumes "getSymbolicExtra E sess fn = Ret (sess1, r, evs)"
  shows "Extra_symbolicExtra sess1 = Some ((tables_of sess)(table_key fn \<mapsto> r)) \<and>
         BuildIDs sess1 = BuildIDs sess \<and>
         (\<forall>ev\<in>set evs. (\<exists>p. ev = Load (table_key fn) p) \<or> (\<exists>e. ev = Log e)) \<and>
         (table_key fn \<in> dom (tables_of sess) \<longrightarrow> evs = [] \<and> tables_of sess (table_key fn) = Some r)"
proof (cases "tables_of sess (table_key fn)")
  case (Some v)
  then have "getSymbolicExtra E sess fn = Ret (sess\<lparr>Extra_symbolicExtra := Some (tables_of sess)\<rparr>, v, [])"
    by (simp add: getSymbolicExtra_def Let_def tables_of_def)
  then show ?thesis using assms Some by (auto simp: fun_upd_idem)
next
  case None
  show ?thesis
    using assms None
    by (auto simp: getSymbolicExtra_def Let_def tables_of_def[symmetric]
        dest!: buildID_loop_events
        split: outcome.splits prod.splits if_splits sum.splits)
qed








subsection \<open>Evaluating the concrete images\<close>

lemma setFuncHighPCs_single:
  "setFuncHighPCs [x] = [if highpc x = lowpc x then x\<lparr>highpc := lowpc x + 1\<rparr> else x]"
  by (rule nth_equalityI) (simp_all add: setFuncHighPCs_length setFuncHighPCs_nth spec_fill_def)

lemma setFuncHighPCs_Cons:
  "setFuncHighPCs (x # y # ys) =
     (if highpc x = lowpc x then x\<lparr>highpc := lowpc y\<rparr> else x) # setFuncHighPCs (y # ys)"
proof (rule nth_equalityI)
  show "length (setFuncHighPCs (x # y # ys)) =
        length ((if highpc x = lowpc x then x\<lparr>highpc := lowpc y\<rparr> else x) # setFuncHighPCs (y # ys))"
    by (simp add: setFuncHighPCs_length)
next
  fix i assume "i < length (setFuncHighPCs (x # y # ys))"
  then have i: "i < Suc (Suc (length ys))" by (simp add: setFuncHighPCs_length)
  show "setFuncHighPCs (x # y # ys) ! i =
        ((if highpc x = lowpc x then x\<lparr>highpc := lowpc y\<rparr> else x) # setFuncHighPCs (y # ys)) ! i"
  proof (cases i)
    case 0
    then show ?thesis by (simp add: setFuncHighPCs_nth spec_fill_def)
  next
    case (Suc j)
    then have j: "j < length (y # ys)" using i by simp
    show ?thesis using Suc j
      by (simp add: setFuncHighPCs_nth spec_fill_def)
  qed
qed

lemmas demo_defs = demo_env_def foo_elf_def bar_elf_def bad_lines_elf_def bad_symbols_elf_def
  zero_width_elf_def demo_kallsyms_def demo_unit_def demo_subprogram_def demo_line_def
  demo_line_end_def zeroLineEntry_def demo_session_def demo_mmap_def demo_out_def
  foo_table_def bar_table_def

lemma foo_built: "newSymbolicExtra demo_env ''/bin/foo'' = Ret (Inr foo_table)"
  by (simp add: newSymbolicExtra_def dwarfLineTable_def dwarfFuncTable_def subprogram_range_def demo_defs)

lemma bar_built: "newSymbolicExtra demo_env ''/lib/bar.so'' = Ret (Inr bar_table)"
  by (simp add: newSymbolicExtra_def elfFuncTable_def setFuncHighPCs_single demo_defs)

lemma foo_range_table: "range_table (ranges foo_table)"
  by (simp add: range_table_def ranges_def foo_table_def)

lemma demo_kallsyms_ranges:
  "kallsyms_ranges (scan_Text demo_kallsyms) =
     [\<lparr>name = ''helper'', lowpc = 0xffffffff81000100, highpc = 0xffffffff81000100, demangled = True\<rparr>,
      \<lparr>name = ''start_kernel'', lowpc = 0xffffffff81000000, highpc = 0xffffffff81000000,
        demangled = True\<rparr>]"
proof -
  have re1: "kallsymsRe ''ffffffff81000100 t helper'' = Some (''ffffffff81000100'', CHR ''t'', ''helper'')"
    by code_simp
  have re2: "kallsymsRe ''ffffffff81000000 T start_kernel'' =
      Some (''ffffffff81000000'', CHR ''T'', ''start_kernel'')"
    by code_simp
  have re3: "kallsymsRe ''ffffffff82000000 D some_data'' =
      Some (''ffffffff82000000'', CHR ''D'', ''some_data'')"
    by code_simp
  have re4: "kallsymsRe ''not a symbol line'' = None"
    by code_simp
  have p1: "ParseUint_16_64 ''ffffffff81000100'' = 0xffffffff81000100"
    by (simp add: ParseUint_16_64_def is_hex_def hex_val_def)
  have p2: "ParseUint_16_64 ''ffffffff81000000'' = 0xffffffff81000000"
    by (simp add: ParseUint_16_64_def is_hex_def hex_val_def)
  show ?thesis by (simp add: demo_kallsyms_def re1 re2 re3 re4 p1 p2)
qed

lemma demo_kallsyms_built:
  "newKallsyms demo_env ''/home/u/.debug/.build-id/ab/cdef'' =
     Inr \<lparr>functab = Some
            [\<lparr>name = ''start_kernel'', lowpc = 0xffffffff81000000, highpc = 0xffffffff81000100,
               demangled = True\<rparr>,
             \<lparr>name = ''helper'', lowpc = 0xffffffff81000100, highpc = 0xffffffff81000101,
               demangled = True\<rparr>],
          linetab = None, isReloc = False\<rparr>"
proof -
  have "os_Open demo_env ''/home/u/.debug/.build-id/ab/cdef'' = Inr demo_kallsyms"
    by (simp add: demo_env_def)
  moreover have "scan_Err demo_kallsyms = None" by (simp add: demo_kallsyms_def)
  moreover have "sort_Sort demo_env (kallsyms_ranges (scan_Text demo_kallsyms)) =
     [\<lparr>name = ''start_kernel'', lowpc = 0xffffffff81000000, highpc = 0xffffffff81000000,
        demangled = True\<rparr>,
      \<lparr>name = ''helper'', lowpc = 0xffffffff81000100, highpc = 0xffffffff81000100, demangled = True\<rparr>]"
    by (simp add: demo_kallsyms_ranges demo_env_def)
  ultimately show ?thesis
    by (simp add: newKallsyms_def setFuncHighPCs_Cons setFuncHighPCs_single)
qed

subsection \<open>Locating an image\<close>

lemma buildID_loop_Some_iff:
  "buildID_loop E k fn bids = Ret (x, evs) \<Longrightarrow>
   x \<noteq> None \<longleftrightarrow> (\<exists>bid\<in>set bids. bid_Filename bid = fn \<and> loads E k (cache_path E bid))"
proof (induction bids arbitrary: x evs)
  case Nil
  then show ?case by simp
next
  case (Cons bid bids)
  show ?case
  proof (cases "bid_Filename bid = fn")
    case False
    then show ?thesis using Cons by simp
  next
    case True
    show ?thesis
    proof (cases "loads E k (cache_path E bid)")
      case l: True
      then show ?thesis using Cons.prems True
        by (auto simp: loads_def cache_path_def Let_def split: if_splits outcome.splits sum.splits prod.splits)
    next
      case l: False
      then have "buildID_loop E k fn bids = Ret (x, tl evs)"
        using Cons.prems True
        by (auto simp: loads_def cache_path_def Let_def split: if_splits outcome.splits sum.splits prod.splits)
      from Cons.IH[OF this] show ?thesis using l True by auto
    qed
  qed
qed

lemma getSymbolicExtra_fresh:
  assumes "getSymbolicExtra E sess fn = Ret (sess1, r, evs)"
    and "tables_of sess (table_key fn) = None"
  shows "r \<noteq> None \<longleftrightarrow> image_located E sess fn"
proof -
  obtain x evs0 where loop: "buildID_loop E (prefix ''[kernel.kallsyms]'' fn) (table_key fn) (BuildIDs sess) = Ret (x, evs0)"
    using assms
    by (auto simp: getSymbolicExtra_def Let_def tables_of_def[symmetric] split: outcome.splits prod.splits)
  note L = buildID_loop_Some_iff[OF loop]
  show ?thesis
  proof (cases x)
    case (Some e)
    then have "r = Some e" using assms loop
      by (auto simp: getSymbolicExtra_def Let_def tables_of_def[symmetric] split: outcome.splits prod.splits)
    then show ?thesis using L Some by (auto simp: image_located_def)
  next
    case None
    then have "r \<noteq> None \<longleftrightarrow> loads E False (table_key fn)" using assms loop
      by (auto simp: getSymbolicExtra_def Let_def tables_of_def[symmetric] loads_def
          split: outcome.splits prod.splits sum.splits)
    then show ?thesis using L None by (auto simp: image_located_def)
  qed
qed

lemma Symbolize_Abort:
  "Symbolize E sess mmap ip out = Abort a \<longleftrightarrow> getSymbolicExtra E sess (Filename mmap) = Abort a"
  by (auto simp: Symbolize_def Let_def split: outcome.splits prod.splits option.splits)






lemma getSymbolicExtra_fresh_None:
  assumes "getSymbolicExtra E sess fn = Ret (sess1, None, evs)"
    and "tables_of sess (table_key fn) = None"
  shows "\<exists>err. newSymbolicExtra E (table_key fn) = Ret (Inl err) \<and> last evs = Log err"
  using assms
  by (auto simp: getSymbolicExtra_def Let_def tables_of_def[symmetric]
      split: outcome.splits prod.splits sum.splits if_splits)

lemma buildID_loop_no_match:
  "\<forall>bid\<in>set bids. bid_Filename bid \<noteq> fn \<Longrightarrow> buildID_loop E k fn bids = Ret (None, [])"
  by (induction bids) auto

lemma getSymbolicExtra_fresh_Abort:
  assumes "tables_of sess (table_key fn) = None"
    and "\<forall>bid\<in>set (BuildIDs sess). bid_Filename bid \<noteq> table_key fn"
    and "newSymbolicExtra E (table_key fn) = Abort a"
  shows "getSymbolicExtra E sess fn = Abort a"
  using assms
  by (simp add: getSymbolicExtra_def Let_def tables_of_def[symmetric] buildID_loop_no_match)

subsection \<open>When the line table loader ends the process\<close>

lemma dwarf_lines_Abort_iff:
  "(dwarf_lines n = Abort LogFatal) = (\<exists>ent\<in>set (dwarf_units n). line_program_fails (LineProgram ent))"
  "(dwarf_lines_list ns = Abort LogFatal) =
     (\<exists>ent\<in>set (concat (map dwarf_units ns)). line_program_fails (LineProgram ent))"
proof (induction n and ns rule: dwarf_lines_dwarf_lines_list.induct)
  case (1 ent children)
  then show ?case
    by (cases "LineProgram ent")
       (auto simp: line_program_fails_def split: outcome.splits option.splits)
next
  case 2
  then show ?case by simp
next
  case (3 n ns)
  then show ?case
    by (cases "dwarf_lines n"; cases "dwarf_lines_list ns")
       (auto dest: dwarf_lines_Abort)
qed

lemma dwarfLineTable_Abort_iff:
  "dwarfLineTable d = Abort LogFatal \<longleftrightarrow>
   (\<exists>ent\<in>set (concat (map dwarf_units d)). line_program_fails (LineProgram ent))"
  by (simp add: dwarfLineTable_def dwarf_lines_Abort_iff(2))

lemma newSymbolicExtra_Abort_units:
  "newSymbolicExtra E fn = Abort a \<longleftrightarrow>
   a = LogFatal \<and>
   (\<exists>elff. elf_Open E fn = Inr elff \<and>
      (if elf_Type elff = ET_EXEC \<and> has_debug_info elff
       then \<exists>d. elf_DWARF elff = Inr d \<and>
              (\<exists>ent\<in>set (concat (map dwarf_units d)). line_program_fails (LineProgram ent))
       else elf_Type elff \<noteq> ET_OTHER \<and> (\<exists>e. elf_Symbols elff = SymbolsError e)))"
  by (simp only: newSymbolicExtra_Abort dwarfLineTable_Abort_iff)

lemma Symbolize_not_found:
  assumes "Symbolize E sess mmap ip out = Ret (sess', out', ok, evs)"
  shows "\<exists>sess1 r. getSymbolicExtra E sess (Filename mmap) = Ret (sess1, r, evs) \<and>
           (ok \<longleftrightarrow> r \<noteq> None) \<and> (r = None \<longrightarrow> out' = out \<and> sess' = sess1)"
proof (cases "getSymbolicExtra E sess (Filename mmap)")
  case (Abort a)
  then show ?thesis using assms by (simp add: Symbolize_def)
next
  case (Ret x)
  obtain sess1 r evs1 where x: "x = (sess1, r, evs1)" by (cases x)
  show ?thesis using assms Ret x
    by (cases r) (auto simp: Symbolize_def Let_def split: prod.splits)
qed

subsection \<open>Concrete runs\<close>




lemma getSymbolicExtra_missing:
  "getSymbolicExtra empty_env demo_session ''/bin/foo'' =
     Ret (missed_session, None,
          [Load ''/bin/foo'' ''/bin/foo'', Log (ErrLoadingELF ''/bin/foo'' ''no such file or directory'')])"
  by (simp add: getSymbolicExtra_def table_key_def demo_session_def missed_session_def
      newSymbolicExtra_def empty_env_def demo_env_def Let_def)

lemma Symbolize_missing:
  "Symbolize empty_env demo_session (demo_mmap ''/bin/foo'') 0x1005 demo_out =
     Ret (missed_session, demo_out, False,
          [Load ''/bin/foo'' ''/bin/foo'', Log (ErrLoadingELF ''/bin/foo'' ''no such file or directory'')])"
  by (simp add: Symbolize_def getSymbolicExtra_missing demo_mmap_def)



lemma Symbolize_badlines:
  "Symbolize demo_env demo_session (demo_mmap ''/bin/badlines'') 0x1005 demo_out = Abort LogFatal"
  by (simp add: Symbolize_def getSymbolicExtra_def table_key_def demo_session_def demo_mmap_def
      newSymbolicExtra_def dwarfLineTable_def demo_env_def bad_lines_elf_def demo_unit_def Let_def)

lemma Symbolize_badsyms:
  "Symbolize demo_env demo_session (demo_mmap ''/bin/badsyms'') 0x1005 demo_out = Abort LogFatal"
  by (simp add: Symbolize_def getSymbolicExtra_def table_key_def demo_session_def demo_mmap_def
      newSymbolicExtra_def elfFuncTable_def demo_env_def bad_symbols_elf_def Let_def)


lemma tables_of_demo_session: "tables_of demo_session k = None"
  by (simp add: tables_of_def demo_session_def)

section \<open>The claims\<close>

text \<open>
  Claim C1. In a Range Table (intervals in ascending order that do not overlap), if the
  address the function lookup searches for lies in \<open>[low\<^sub>i, high\<^sub>i)\<close> of range \<open>i\<close>, then \<open>findIP\<close>
  returns range \<open>i\<close> and the name read through the returned pointer is the name of range
  \<open>i\<close>, demangled if it was not yet. If the address lies in no range of the table, sorted
  or not, \<open>findIP\<close> returns no function.
\<close>

theorem findIP_function_lookup:
  "(range_table (ranges s) \<longrightarrow>
      (\<forall>i<length (ranges s). in_range (ranges s ! i) (translated_address s mmap ip) \<longrightarrow>
         fst (snd (findIP dm s mmap ip)) = Some i \<and>
         name (ranges (fst (findIP dm s mmap ip)) ! i) =
           (if demangled (ranges s ! i) then name (ranges s ! i) else dm (name (ranges s ! i))))) \<and>
   ((\<forall>i<length (ranges s). \<not> in_range (ranges s ! i) (translated_address s mmap ip)) \<longrightarrow>
      fst (snd (findIP dm s mmap ip)) = None)"
proof (intro conjI impI allI)
  fix i
  assume rt: "range_table (ranges s)" and i: "i < length (ranges s)"
    and inr: "in_range (ranges s ! i) (translated_address s mmap ip)"
  then obtain ft where ft: "functab s = Some ft" by (cases "functab s") (auto simp: ranges_def)
  then have r: "ranges s = ft" by (simp add: ranges_def)
  have hit: "range_search ft (translated_address s mmap ip) = Some i"
    using range_search_hit[of ft i] rt i inr by (simp add: r)
  show "fst (snd (findIP dm s mmap ip)) = Some i" by (simp add: findIP_func ft hit)
  then show "name (ranges (fst (findIP dm s mmap ip)) ! i) =
           (if demangled (ranges s ! i) then name (ranges s ! i) else dm (name (ranges s ! i)))"
    using i by (simp add: findIP_ranges_nth)
next
  assume none: "\<forall>i<length (ranges s). \<not> in_range (ranges s ! i) (translated_address s mmap ip)"
  show "fst (snd (findIP dm s mmap ip)) = None"
  proof (cases "fst (snd (findIP dm s mmap ip))")
    case None
    then show ?thesis .
  next
    case (Some i)
    then obtain ft where ft: "functab s = Some ft"
      and rs: "range_search ft (translated_address s mmap ip) = Some i"
      by (auto simp: findIP_func split: option.splits)
    have "i < length (ranges s) \<and> in_range (ranges s ! i) (translated_address s mmap ip)"
      using range_search_Some[OF rs] by (simp add: ranges_def ft)
    then show ?thesis using none by blast
  qed
qed

text \<open>
  Claim C1 on the table of \<open>/bin/foo\<close>: \<open>0x1005\<close> lies in \<open>foo\<close>, \<open>0x1010\<close> in no range.
\<close>

theorem findIP_function_lookup_witness:
  "range_table (ranges foo_table) \<and>
   in_range (ranges foo_table ! 0) (translated_address foo_table (demo_mmap ''/bin/foo'') 0x1005) \<and>
   fst (snd (findIP (\<lambda>n. n @ ''()'') foo_table (demo_mmap ''/bin/foo'') 0x1005)) = Some 0 \<and>
   name (ranges (fst (findIP (\<lambda>n. n @ ''()'') foo_table (demo_mmap ''/bin/foo'') 0x1005)) ! 0) = ''foo()'' \<and>
   \<not> in_range (ranges foo_table ! 0) (translated_address foo_table (demo_mmap ''/bin/foo'') 0x1010) \<and>
   fst (snd (findIP (\<lambda>n. n @ ''()'') foo_table (demo_mmap ''/bin/foo'') 0x1010)) = None"
proof -
  have 1: "in_range (ranges foo_table ! 0) (translated_address foo_table (demo_mmap ''/bin/foo'') 0x1005)"
    by (simp add: in_range_def ranges_def foo_table_def translated_address_def)
  have 2: "\<forall>i<length (ranges foo_table).
       \<not> in_range (ranges foo_table ! i) (translated_address foo_table (demo_mmap ''/bin/foo'') 0x1010)"
    by (simp add: in_range_def ranges_def foo_table_def translated_address_def)
  have 3: "length (ranges foo_table) = 1" "name (ranges foo_table ! 0) = ''foo''"
    "\<not> demangled (ranges foo_table ! 0)"
    by (simp_all add: ranges_def foo_table_def)
  show ?thesis
    using findIP_function_lookup[of foo_table "demo_mmap ''/bin/foo''" "0x1005" "\<lambda>n. n @ ''()''"]
      findIP_function_lookup[of foo_table "demo_mmap ''/bin/foo''" "0x1010" "\<lambda>n. n @ ''()''"]
      foo_range_table 1 2 3
    by simp
qed






text \<open>
  Claim C4 as stated fails: a line-number program that does not decode, or a symbol table
  that does not read, ends the process in \<^verbatim>\<open>log.Fatal\<close>, out of \<open>newSymbolicExtra\<close> and so out of
  \<open>Symbolize\<close>.
\<close>

theorem log_fatal_counterexample:
  "newSymbolicExtra demo_env ''/bin/badlines'' = Abort LogFatal \<and>
   Symbolize demo_env demo_session (demo_mmap ''/bin/badlines'') 0x1005 demo_out = Abort LogFatal \<and>
   newSymbolicExtra demo_env ''/bin/badsyms'' = Abort LogFatal \<and>
   Symbolize demo_env demo_session (demo_mmap ''/bin/badsyms'') 0x1005 demo_out = Abort LogFatal"
proof -
  have 1: "newSymbolicExtra demo_env ''/bin/badlines'' = Abort LogFatal"
    by (simp add: newSymbolicExtra_def dwarfLineTable_def demo_env_def bad_lines_elf_def demo_unit_def)
  have 2: "newSymbolicExtra demo_env ''/bin/badsyms'' = Abort LogFatal"
    by (simp add: newSymbolicExtra_def elfFuncTable_def demo_env_def bad_symbols_elf_def)
  show ?thesis by (intro conjI 1 2 Symbolize_badlines Symbolize_badsyms)
qed

text \<open>
  Claim C4, amended. A failure to open or parse the image, or to load its debug
  information, is returned by the loader as an error, and an image of the symbol path
  without a symbol table gives an Image Table with neither table. The loader ends the
  process, with \<^verbatim>\<open>log.Fatal\<close>, exactly when the image opens and either it takes the
  debug-information path and the line-number program of a compilation unit fails to open
  or decode, or it takes the symbol path for an executable or shared object and reading
  the symbols fails other than by their absence.
  At the boundary, when \<open>Symbolize\<close> returns for a file name not yet in the table for which
  no image can be located, it returns false, leaves \<^verbatim>\<open>*out\<close> alone, stores the nil sentinel,
  and the error of the recorded path is the last thing logged; when no build ID record
  matches and the loader ends the process on the recorded path, so does \<open>Symbolize\<close>.
\<close>

theorem loader_failures:
  "(elf_Open E filename = Inl e \<longrightarrow>
      newSymbolicExtra E filename = Ret (Inl (ErrLoadingELF filename e))) \<and>
   (elf_Open E filename = Inr elff \<and> elf_Type elff = ET_EXEC \<and> has_debug_info elff \<and>
    elf_DWARF elff = Inl e \<longrightarrow>
      newSymbolicExtra E filename = Ret (Inl (ErrLoadingDWARF filename e))) \<and>
   (elf_Open E filename = Inr elff \<and> \<not> (elf_Type elff = ET_EXEC \<and> has_debug_info elff) \<and>
    elf_Symbols elff = ErrNoSymbols \<longrightarrow>
      newSymbolicExtra E filename =
        Ret (Inr \<lparr>functab = None, linetab = None, isReloc = False\<rparr>)) \<and>
   (newSymbolicExtra E filename = Abort a \<longleftrightarrow>
      a = LogFatal \<and>
      (\<exists>elff. elf_Open E filename = Inr elff \<and>
         (if elf_Type elff = ET_EXEC \<and> has_debug_info elff
          then \<exists>d. elf_DWARF elff = Inr d \<and>
                 (\<exists>ent\<in>set (concat (map dwarf_units d)). line_program_fails (LineProgram ent))
          else elf_Type elff \<noteq> ET_OTHER \<and> (\<exists>e. elf_Symbols elff = SymbolsError e)))) \<and>
   (Symbolize E sess mmap ip out = Ret (sess', out', ok, evs) \<and>
    tables_of sess (table_key (Filename mmap)) = None \<and> \<not> image_located E sess (Filename mmap) \<longrightarrow>
      \<not> ok \<and> out' = out \<and> tables_of sess' (table_key (Filename mmap)) = Some None \<and>
      (\<exists>err. newSymbolicExtra E (table_key (Filename mmap)) = Ret (Inl err) \<and>
             last evs = Log err)) \<and>
   (tables_of sess (table_key (Filename mmap)) = None \<and>
    (\<forall>bid\<in>set (BuildIDs sess). bid_Filename bid \<noteq> table_key (Filename mmap)) \<and>
    newSymbolicExtra E (table_key (Filename mmap)) = Abort a \<longrightarrow>
      Symbolize E sess mmap ip out = Abort a)"
proof (intro conjI impI)
  assume "elf_Open E filename = Inl e"
  then show "newSymbolicExtra E filename = Ret (Inl (ErrLoadingELF filename e))"
    by (rule newSymbolicExtra_open_error)
next
  assume "elf_Open E filename = Inr elff \<and> elf_Type elff = ET_EXEC \<and> has_debug_info elff \<and>
    elf_DWARF elff = Inl e"
  then show "newSymbolicExtra E filename = Ret (Inl (ErrLoadingDWARF filename e))"
    by (simp add: newSymbolicExtra_dwarf_error)
next
  assume "elf_Open E filename = Inr elff \<and> \<not> (elf_Type elff = ET_EXEC \<and> has_debug_info elff) \<and>
    elf_Symbols elff = ErrNoSymbols"
  then show "newSymbolicExtra E filename =
        Ret (Inr \<lparr>functab = None, linetab = None, isReloc = False\<rparr>)"
    by (auto simp: newSymbolicExtra_def elfFuncTable_def Let_def split: elf_Type.splits)
next
  show "newSymbolicExtra E filename = Abort a \<longleftrightarrow>
      a = LogFatal \<and>
      (\<exists>elff. elf_Open E filename = Inr elff \<and>
         (if elf_Type elff = ET_EXEC \<and> has_debug_info elff
          then \<exists>d. elf_DWARF elff = Inr d \<and>
                 (\<exists>ent\<in>set (concat (map dwarf_units d)). line_program_fails (LineProgram ent))
          else elf_Type elff \<noteq> ET_OTHER \<and> (\<exists>e. elf_Symbols elff = SymbolsError e)))"
    by (rule newSymbolicExtra_Abort_units)
next
  assume a: "Symbolize E sess mmap ip out = Ret (sess', out', ok, evs) \<and>
    tables_of sess (table_key (Filename mmap)) = None \<and> \<not> image_located E sess (Filename mmap)"
  then have S: "Symbolize E sess mmap ip out = Ret (sess', out', ok, evs)"
    and fresh: "tables_of sess (table_key (Filename mmap)) = None"
    and nl: "\<not> image_located E sess (Filename mmap)" by simp_all
  obtain sess1 r where g: "getSymbolicExtra E sess (Filename mmap) = Ret (sess1, r, evs)"
    and c: "ok \<longleftrightarrow> r \<noteq> None" "r = None \<longrightarrow> out' = out \<and> sess' = sess1"
    using Symbolize_not_found[OF S] by blast
  have r: "r = None" using getSymbolicExtra_fresh[OF g fresh] nl by simp
  show "\<not> ok" "out' = out" using c r by simp_all
  have "sess' = sess1" using c r by simp
  then show "tables_of sess' (table_key (Filename mmap)) = Some None"
    using getSymbolicExtra_result[OF g] r by (simp add: tables_of_def)
  show "\<exists>err. newSymbolicExtra E (table_key (Filename mmap)) = Ret (Inl err) \<and> last evs = Log err"
    using getSymbolicExtra_fresh_None[OF g[unfolded r] fresh] .
next
  assume "tables_of sess (table_key (Filename mmap)) = None \<and>
    (\<forall>bid\<in>set (BuildIDs sess). bid_Filename bid \<noteq> table_key (Filename mmap)) \<and>
    newSymbolicExtra E (table_key (Filename mmap)) = Abort a"
  then have "getSymbolicExtra E sess (Filename mmap) = Abort a"
    by (intro getSymbolicExtra_fresh_Abort) simp_all
  then show "Symbolize E sess mmap ip out = Abort a" by (simp add: Symbolize_Abort)
qed

text \<open>
  Claim C4, amended, on a missing file, an image whose debug information does not load,
  a shared object without symbol table, an image whose symbols do not read and an image
  whose line-number program does not decode.
\<close>

theorem loader_failures_witness:
  "elf_Open empty_env ''/bin/foo'' = Inl ''no such file or directory'' \<and>
   newSymbolicExtra empty_env ''/bin/foo'' =
     Ret (Inl (ErrLoadingELF ''/bin/foo'' ''no such file or directory'')) \<and>
   elf_Open demo_env ''/bin/baddwarf'' = Inr bad_dwarf_elf \<and>
   newSymbolicExtra demo_env ''/bin/baddwarf'' =
     Ret (Inl (ErrLoadingDWARF ''/bin/baddwarf'' ''decoding dwarf section info'')) \<and>
   elf_Open demo_env ''/lib/stripped.so'' = Inr stripped_elf \<and>
   elf_Symbols stripped_elf = ErrNoSymbols \<and>
   newSymbolicExtra demo_env ''/lib/stripped.so'' =
     Ret (Inr \<lparr>functab = None, linetab = None, isReloc = False\<rparr>) \<and>
   elf_Open demo_env ''/bin/badsyms'' = Inr bad_symbols_elf \<and>
   elf_Symbols bad_symbols_elf = SymbolsError ''cannot load symbol section'' \<and>
   newSymbolicExtra demo_env ''/bin/badsyms'' = Abort LogFatal \<and>
   Symbolize demo_env demo_session (demo_mmap ''/bin/badsyms'') 0x1005 demo_out = Abort LogFatal \<and>
   elf_Open demo_env ''/bin/badlines'' = Inr bad_lines_elf \<and>
   line_program_fails (LineReader [demo_line] (Some ''bad opcode'')) \<and>
   newSymbolicExtra demo_env ''/bin/badlines'' = Abort LogFatal \<and>
   \<not> image_located empty_env demo_session ''/bin/foo'' \<and>
   Symbolize empty_env demo_session (demo_mmap ''/bin/foo'') 0x1005 demo_out =
     Ret (missed_session, demo_out, False,
          [Load ''/bin/foo'' ''/bin/foo'', Log (ErrLoadingELF ''/bin/foo'' ''no such file or directory'')]) \<and>
   tables_of missed_session ''/bin/foo'' = Some None"
proof -
  let ?m = "demo_mmap ''/bin/badsyms''"
  have o1: "elf_Open empty_env ''/bin/foo'' = Inl ''no such file or directory''"
    by (simp add: empty_env_def)
  have o2: "elf_Open demo_env ''/bin/baddwarf'' = Inr bad_dwarf_elf"
    and d2: "elf_Type bad_dwarf_elf = ET_EXEC" "has_debug_info bad_dwarf_elf"
      "elf_DWARF bad_dwarf_elf = Inl ''decoding dwarf section info''"
    by (simp_all add: demo_env_def bad_dwarf_elf_def)
  have o3: "elf_Open demo_env ''/bin/badsyms'' = Inr bad_symbols_elf"
    and d3: "elf_Type bad_symbols_elf = ET_EXEC" "\<not> has_debug_info bad_symbols_elf"
      "elf_Symbols bad_symbols_elf = SymbolsError ''cannot load symbol section''"
    by (simp_all add: demo_env_def bad_symbols_elf_def)
  have 1: "newSymbolicExtra empty_env ''/bin/foo'' =
     Ret (Inl (ErrLoadingELF ''/bin/foo'' ''no such file or directory''))"
    using loader_failures[where E = empty_env and filename = "''/bin/foo''"
        and e = "''no such file or directory''"] o1 by blast
  have 2: "newSymbolicExtra demo_env ''/bin/baddwarf'' =
     Ret (Inl (ErrLoadingDWARF ''/bin/baddwarf'' ''decoding dwarf section info''))"
    using loader_failures[where E = demo_env and filename = "''/bin/baddwarf''"
        and e = "''decoding dwarf section info''" and elff = bad_dwarf_elf]
      o2 d2 by blast
  have "newSymbolicExtra demo_env ''/bin/badsyms'' = Abort LogFatal \<longleftrightarrow>
      LogFatal = LogFatal \<and>
      (\<exists>elff. elf_Open demo_env ''/bin/badsyms'' = Inr elff \<and>
         (if elf_Type elff = ET_EXEC \<and> has_debug_info elff
          then \<exists>d. elf_DWARF elff = Inr d \<and>
                 (\<exists>ent\<in>set (concat (map dwarf_units d)). line_program_fails (LineProgram ent))
          else elf_Type elff \<noteq> ET_OTHER \<and> (\<exists>e. elf_Symbols elff = SymbolsError e)))"
    using loader_failures[where E = demo_env and filename = "''/bin/badsyms''" and a = LogFatal]
    by blast
  then have 3: "newSymbolicExtra demo_env ''/bin/badsyms'' = Abort LogFatal"
    using o3 d3 by simp
  have o5: "elf_Open demo_env ''/lib/stripped.so'' = Inr stripped_elf"
    and d5: "elf_Symbols stripped_elf = ErrNoSymbols"
      "\<not> (elf_Type stripped_elf = ET_EXEC \<and> has_debug_info stripped_elf)"
    by (simp_all add: demo_env_def stripped_elf_def)
  have 7: "newSymbolicExtra demo_env ''/lib/stripped.so'' =
     Ret (Inr \<lparr>functab = None, linetab = None, isReloc = False\<rparr>)"
    using loader_failures[where E = demo_env and filename = "''/lib/stripped.so''"
        and elff = stripped_elf] o5 d5 by blast
  have o4: "elf_Open demo_env ''/bin/badlines'' = Inr bad_lines_elf"
    and d4: "elf_Type bad_lines_elf = ET_EXEC" "has_debug_info bad_lines_elf"
      "elf_DWARF bad_lines_elf =
         Inr [demo_unit (LineReader [demo_line] (Some ''bad opcode''))
                [demo_subprogram ''foo'' 0x1000 0x10]]"
    by (simp_all add: demo_env_def bad_lines_elf_def)
  have lf: "line_program_fails (LineReader [demo_line] (Some ''bad opcode''))"
    by (simp add: line_program_fails_def)
  have units: "\<exists>ent\<in>set (concat (map dwarf_units
                   [demo_unit (LineReader [demo_line] (Some ''bad opcode''))
                      [demo_subprogram ''foo'' 0x1000 0x10]])).
                 line_program_fails (LineProgram ent)"
    by (simp add: demo_unit_def demo_subprogram_def line_program_fails_def)
  have "newSymbolicExtra demo_env ''/bin/badlines'' = Abort LogFatal \<longleftrightarrow>
      LogFatal = LogFatal \<and>
      (\<exists>elff. elf_Open demo_env ''/bin/badlines'' = Inr elff \<and>
         (if elf_Type elff = ET_EXEC \<and> has_debug_info elff
          then \<exists>d. elf_DWARF elff = Inr d \<and>
                 (\<exists>ent\<in>set (concat (map dwarf_units d)). line_program_fails (LineProgram ent))
          else elf_Type elff \<noteq> ET_OTHER \<and> (\<exists>e. elf_Symbols elff = SymbolsError e)))"
    using loader_failures[where E = demo_env and filename = "''/bin/badlines''" and a = LogFatal]
    by blast
  then have 6: "newSymbolicExtra demo_env ''/bin/badlines'' = Abort LogFatal"
    using o4 d4 units by simp
  have k: "table_key (Filename ?m) = ''/bin/badsyms''" by (simp add: table_key_def demo_mmap_def)
  have nomatch: "\<forall>bid\<in>set (BuildIDs demo_session). bid_Filename bid \<noteq> table_key (Filename ?m)"
    by (simp add: k demo_session_def)
  have 4: "Symbolize demo_env demo_session ?m 0x1005 demo_out = Abort LogFatal"
    using loader_failures[where E = demo_env and a = LogFatal and sess = demo_session
        and mmap = ?m and ip = "0x1005" and out = demo_out]
      tables_of_demo_session nomatch 3 by (simp add: k)
  have kf: "table_key (Filename (demo_mmap ''/bin/foo'')) = ''/bin/foo''"
    by (simp add: table_key_def demo_mmap_def)
  have nl: "\<not> image_located empty_env demo_session ''/bin/foo''"
    by (simp add: image_located_def loads_def table_key_def demo_session_def cache_path_def 1)
  have 5: "tables_of missed_session ''/bin/foo'' = Some None"
    using loader_failures[where E = empty_env and sess = demo_session
        and mmap = "demo_mmap ''/bin/foo''" and ip = "0x1005" and out = demo_out
        and sess' = missed_session and out' = demo_out and ok = False
        and evs = "[Load ''/bin/foo'' ''/bin/foo'',
                    Log (ErrLoadingELF ''/bin/foo'' ''no such file or directory'')]"]
      Symbolize_missing tables_of_demo_session nl
    by (simp add: kf demo_mmap_def table_key_def)
  show ?thesis by (intro conjI o1 1 o2 2 o5 d5(1) 7 o3 d3(3) 3 4 o4 lf 6 nl Symbolize_missing 5)
qed

text \<open>
  Claim C5 as stated fails twice. The debug-information path sorts but does not fill: the
  zero-width range of \<open>/bin/empty\<close> stays zero-width. And filling closes no gap behind a
  range of positive width: the address 7 lies between the lowest low and the last high
  of two non-overlapping ranges and in neither, before and after \<open>setFuncHighPCs\<close>.
\<close>

theorem gap_filling_counterexample:
  "newSymbolicExtra demo_env ''/bin/empty'' =
     Ret (Inr \<lparr>functab = Some [\<lparr>name = ''empty'', lowpc = 0x10, highpc = 0x10, demangled = False\<rparr>],
               linetab = Some [], isReloc = False\<rparr>) \<and>
   range_table gap_ranges \<and> setFuncHighPCs gap_ranges = gap_ranges \<and>
   lowpc (gap_ranges ! 0) \<le> 7 \<and> 7 < highpc (gap_ranges ! 1) \<and>
   \<not> in_range (gap_ranges ! 0) 7 \<and> \<not> in_range (gap_ranges ! 1) 7"
proof -
  have 1: "newSymbolicExtra demo_env ''/bin/empty'' =
     Ret (Inr \<lparr>functab = Some [\<lparr>name = ''empty'', lowpc = 0x10, highpc = 0x10, demangled = False\<rparr>],
               linetab = Some [], isReloc = False\<rparr>)"
    by (simp add: newSymbolicExtra_def dwarfLineTable_def dwarfFuncTable_def subprogram_range_def
        demo_env_def zero_width_elf_def demo_unit_def demo_subprogram_def)
  have 2: "setFuncHighPCs gap_ranges = gap_ranges"
    by (simp add: gap_ranges_def setFuncHighPCs_Cons setFuncHighPCs_single)
  show ?thesis using 1 2 by (simp add: gap_ranges_def range_table_def in_range_def)
qed

text \<open>
  Claim C5, amended. The Range Tables of the symbol path and of the kernel-symbol parser
  are \<open>setFuncHighPCs\<close> of the sorted ranges; the Range Table of the debug-information path
  is the sorted ranges themselves.
  \<open>setFuncHighPCs\<close> keeps the length, extends every range whose high equals its low to the
  next range's low address, or to \<open>low + 1\<close> (modulo \<open>2\<^sup>6\<^sup>4\<close>) for the last entry, and leaves
  every other range as it is. Consequently, for non-overlapping ranges in ascending order
  the result is again non-overlapping and in ascending order, unless the last range is
  zero-width at the highest address; and two neighbours of the result abut exactly when
  the first was zero-width or ended at the second's low already: other gaps stay.
\<close>

theorem gap_filling:
  "(elfFuncTable E filename elff = Ret (Some t, r) \<longrightarrow>
      (\<exists>syms. elf_Symbols elff = Symbols syms \<and>
         t = setFuncHighPCs (sort_Sort E (elf_ranges r (Sections elff) syms)))) \<and>
   (newKallsyms E filename = Inr s \<longrightarrow>
      (\<exists>f. os_Open E filename = Inr f \<and>
         functab s = Some (setFuncHighPCs (sort_Sort E (kallsyms_ranges (scan_Text f)))))) \<and>
   (dwarfFuncTable E dwarff = Some t \<longrightarrow> t = sort_Sort E (concat (map dwarf_funcs dwarff))) \<and>
   length (setFuncHighPCs ft) = length ft \<and>
   (\<forall>i<length ft. setFuncHighPCs ft ! i = spec_fill ft i) \<and>
   (range_table ft \<and> (ft \<noteq> [] \<and> highpc (last ft) = lowpc (last ft) \<longrightarrow> lowpc (last ft) \<noteq> - 1) \<longrightarrow>
      range_table (setFuncHighPCs ft)) \<and>
   (\<forall>i. Suc i < length ft \<longrightarrow>
      (highpc (setFuncHighPCs ft ! i) = lowpc (setFuncHighPCs ft ! Suc i) \<longleftrightarrow>
       highpc (ft ! i) = lowpc (ft ! i) \<or> highpc (ft ! i) = lowpc (ft ! Suc i)))"
proof (intro conjI impI allI)
  assume "elfFuncTable E filename elff = Ret (Some t, r)"
  from elfFuncTable_Some[OF this]
  show "\<exists>syms. elf_Symbols elff = Symbols syms \<and>
         t = setFuncHighPCs (sort_Sort E (elf_ranges r (Sections elff) syms))" by blast
next
  assume "newKallsyms E filename = Inr s"
  then show "\<exists>f. os_Open E filename = Inr f \<and>
         functab s = Some (setFuncHighPCs (sort_Sort E (kallsyms_ranges (scan_Text f))))"
    by (auto simp: newKallsyms_Inr)
next
  assume "dwarfFuncTable E dwarff = Some t"
  then show "t = sort_Sort E (concat (map dwarf_funcs dwarff))"
    by (simp add: dwarfFuncTable_def Let_def split: if_splits)
next
  show "length (setFuncHighPCs ft) = length ft" by (rule setFuncHighPCs_length)
next
  fix i assume "i < length ft"
  then show "setFuncHighPCs ft ! i = spec_fill ft i" by (rule setFuncHighPCs_nth)
next
  assume "range_table ft \<and> (ft \<noteq> [] \<and> highpc (last ft) = lowpc (last ft) \<longrightarrow> lowpc (last ft) \<noteq> - 1)"
  then show "range_table (setFuncHighPCs ft)" by (intro setFuncHighPCs_range_table) simp_all
next
  fix i assume "Suc i < length ft"
  then show "highpc (setFuncHighPCs ft ! i) = lowpc (setFuncHighPCs ft ! Suc i) \<longleftrightarrow>
       highpc (ft ! i) = lowpc (ft ! i) \<or> highpc (ft ! i) = lowpc (ft ! Suc i)"
    by (rule setFuncHighPCs_gap)
qed

text \<open>
  Claim C5, amended, on the symbols of \<open>/lib/bar.so\<close>, the debug information of \<open>/bin/foo\<close>
  and the kernel-symbol file.
\<close>

theorem gap_filling_witness:
  "elfFuncTable demo_env ''/lib/bar.so'' bar_elf = Ret (Some (ranges bar_table), True) \<and>
   ranges bar_table =
     setFuncHighPCs (sort_Sort demo_env
       (elf_ranges True (Sections bar_elf)
          [\<lparr>sym_Name = ''bar'', sym_Info = 0x12, sym_Section = 1, sym_Value = 0x1050,
             sym_Size = 0x10\<rparr>])) \<and>
   dwarfFuncTable demo_env
     [demo_unit (LineReader [demo_line, demo_line_end] None) [demo_subprogram ''foo'' 0x1000 0x10]] =
     Some (ranges foo_table) \<and>
   ranges foo_table =
     sort_Sort demo_env (concat (map dwarf_funcs
       [demo_unit (LineReader [demo_line, demo_line_end] None)
          [demo_subprogram ''foo'' 0x1000 0x10]])) \<and>
   newKallsyms demo_env ''/home/u/.debug/.build-id/ab/cdef'' = Inr kallsyms_table \<and>
   functab kallsyms_table = Some (setFuncHighPCs kallsyms_sorted) \<and>
   length (setFuncHighPCs kallsyms_sorted) = 2 \<and>
   setFuncHighPCs kallsyms_sorted ! 0 = spec_fill kallsyms_sorted 0 \<and>
   setFuncHighPCs kallsyms_sorted ! 1 = spec_fill kallsyms_sorted 1 \<and>
   range_table kallsyms_sorted \<and> range_table (setFuncHighPCs kallsyms_sorted) \<and>
   highpc (setFuncHighPCs kallsyms_sorted ! 0) = lowpc (setFuncHighPCs kallsyms_sorted ! 1)"
proof -
  let ?d = "[demo_unit (LineReader [demo_line, demo_line_end] None)
               [demo_subprogram ''foo'' 0x1000 0x10]]"
  note G = gap_filling[where E = demo_env and filename = "''/home/u/.debug/.build-id/ab/cdef''"
      and elff = bar_elf and t = "ranges bar_table" and r = True and s = kallsyms_table
      and ft = kallsyms_sorted]
  note H = gap_filling[where E = demo_env and dwarff = ?d and t = "ranges foo_table"]
  note F = gap_filling[where E = demo_env and filename = "''/lib/bar.so''" and elff = bar_elf
      and t = "ranges bar_table" and r = True]
  have e: "elfFuncTable demo_env ''/lib/bar.so'' bar_elf = Ret (Some (ranges bar_table), True)"
    by (simp add: elfFuncTable_def setFuncHighPCs_single demo_env_def bar_elf_def ranges_def bar_table_def)
  have sy: "elf_Symbols bar_elf =
      Symbols [\<lparr>sym_Name = ''bar'', sym_Info = 0x12, sym_Section = 1, sym_Value = 0x1050,
                 sym_Size = 0x10\<rparr>]"
    by (simp add: bar_elf_def)
  have e2: "ranges bar_table =
     setFuncHighPCs (sort_Sort demo_env
       (elf_ranges True (Sections bar_elf)
          [\<lparr>sym_Name = ''bar'', sym_Info = 0x12, sym_Section = 1, sym_Value = 0x1050,
             sym_Size = 0x10\<rparr>]))"
    using F e sy by auto
  have df: "dwarfFuncTable demo_env ?d = Some (ranges foo_table)"
    by (simp add: dwarfFuncTable_def demo_unit_def demo_subprogram_def subprogram_range_def
        demo_env_def ranges_def foo_table_def)
  have df2: "ranges foo_table = sort_Sort demo_env (concat (map dwarf_funcs ?d))"
    using H df by blast
  have kb: "newKallsyms demo_env ''/home/u/.debug/.build-id/ab/cdef'' = Inr kallsyms_table"
    using demo_kallsyms_built by (simp add: kallsyms_table_def)
  have srt: "sort_Sort demo_env (kallsyms_ranges (scan_Text demo_kallsyms)) = kallsyms_sorted"
    by (simp add: demo_kallsyms_ranges demo_env_def kallsyms_sorted_def)
  have o: "os_Open demo_env ''/home/u/.debug/.build-id/ab/cdef'' = Inr demo_kallsyms"
    by (simp add: demo_env_def)
  have 1: "functab kallsyms_table = Some (setFuncHighPCs kallsyms_sorted)"
    using G kb o srt by auto
  have len: "length kallsyms_sorted = 2" by (simp add: kallsyms_sorted_def)
  have 2: "length (setFuncHighPCs kallsyms_sorted) = 2" using G len by simp
  have 3: "setFuncHighPCs kallsyms_sorted ! 0 = spec_fill kallsyms_sorted 0"
    "setFuncHighPCs kallsyms_sorted ! 1 = spec_fill kallsyms_sorted 1"
    using G len by simp_all
  have rt: "range_table kallsyms_sorted" by (simp add: range_table_def kallsyms_sorted_def)
  have lst: "lowpc (last kallsyms_sorted) \<noteq> - 1" by (simp add: kallsyms_sorted_def)
  have 4: "range_table (setFuncHighPCs kallsyms_sorted)" using G rt lst by blast
  have z: "highpc (kallsyms_sorted ! 0) = lowpc (kallsyms_sorted ! 0)" by (simp add: kallsyms_sorted_def)
  have "Suc 0 < length kallsyms_sorted" using len by simp
  then have 5: "highpc (setFuncHighPCs kallsyms_sorted ! 0) = lowpc (setFuncHighPCs kallsyms_sorted ! 1)"
    using G z by (metis One_nat_def)
  show ?thesis by (intro conjI e e2 df df2 kb 1 2 3 rt 4 5)
qed

text \<open>
  Claim C6 as stated fails on \<open>findIP\<close>: the relocation branch reassigns \<^verbatim>\<open>ip\<close> and the line
  search reads the same variable. On a table with a Range Table, a Line Table and the
  relocation flag, under a mapping at \<open>0x7000\<close> with file offset \<open>0x200\<close>, the line lookup
  of \<open>0x7e05\<close> finds the entry of \<open>0x1005\<close>, which a search at \<open>0x7e05\<close> does not find, and the
  line lookup of \<open>0x1005\<close> finds nothing, where a search at \<open>0x1005\<close> finds the entry.
\<close>

theorem line_lookup_translated_counterexample:
  "linetab reloc_lines_table = Some [demo_line, demo_line_end] \<and>
   snd (snd (findIP (demangle_Filter demo_env) reloc_lines_table (demo_mmap ''/bin/foo'') 0x7e05)) =
     Some demo_line \<and>
   line_search [demo_line, demo_line_end] 0x7e05 = None \<and>
   spec_line_lookup [demo_line, demo_line_end] 0x7e05 = None \<and>
   snd (snd (findIP (demangle_Filter demo_env) reloc_lines_table (demo_mmap ''/bin/foo'') 0x1005)) =
     None \<and>
   line_search [demo_line, demo_line_end] 0x1005 = Some demo_line \<and>
   spec_line_lookup [demo_line, demo_line_end] 0x1005 = Some demo_line"
proof -
  have srt: "sorted (map Address [demo_line, demo_line_end])"
    by (simp add: demo_line_def demo_line_end_def zeroLineEntry_def)
  have 1: "linetab reloc_lines_table = Some [demo_line, demo_line_end]"
    by (simp add: reloc_lines_table_def)
  have a: "spec_line_lookup [demo_line, demo_line_end] 0x7e05 = None"
    by (simp add: spec_line_lookup_def demo_line_def demo_line_end_def zeroLineEntry_def)
  have b: "spec_line_lookup [demo_line, demo_line_end] 0x1005 = Some demo_line"
    by (simp add: spec_line_lookup_def demo_line_def demo_line_end_def zeroLineEntry_def)
  have c: "spec_line_lookup [demo_line, demo_line_end] (0x1005 - 0x7000 + 0x200) = None"
    by (simp add: spec_line_lookup_def demo_line_def demo_line_end_def zeroLineEntry_def)
  have t1: "translated_address reloc_lines_table (demo_mmap ''/bin/foo'') 0x7e05 = 0x1005"
    by (simp add: translated_address_def reloc_lines_table_def demo_mmap_def)
  have t2: "translated_address reloc_lines_table (demo_mmap ''/bin/foo'') 0x1005 = 0x1005 - 0x7000 + 0x200"
    by (simp add: translated_address_def reloc_lines_table_def demo_mmap_def)
  have f: "functab reloc_lines_table \<noteq> None" by (simp add: reloc_lines_table_def)
  have 2: "snd (snd (findIP (demangle_Filter demo_env) reloc_lines_table (demo_mmap ''/bin/foo'') 0x7e05)) =
     Some demo_line"
    using f by (simp only: findIP_line 1 t1 option.case if_False line_search_spec[OF srt] b)
  have 3: "snd (snd (findIP (demangle_Filter demo_env) reloc_lines_table (demo_mmap ''/bin/foo'') 0x1005)) =
     None"
    using f by (simp only: findIP_line 1 t2 option.case if_False line_search_spec[OF srt] c)
  have 4: "line_search [demo_line, demo_line_end] 0x7e05 = None"
    by (simp only: line_search_spec[OF srt] a)
  have 5: "line_search [demo_line, demo_line_end] 0x1005 = Some demo_line"
    by (simp only: line_search_spec[OF srt] b)
  show ?thesis by (intro conjI 1 2 3 4 5 a b)
qed

text \<open>
  Claim C6, amended. The line lookup of \<open>findIP\<close> is the binary search of the Line Table
  at the address the function lookup used: the queried address, except on a table that
  has a Range Table and the relocation flag set, where it is the translated address
  \<open>ip - mmap.Addr + mmap.FileOffset\<close>. No Image Table a loader builds, or a lookup leaves
  behind, has a Line Table together with the relocation flag, so on every Image Table
  the program holds the search is at the queried address. When the Line Table is sorted
  by address the search returns the entry before the first one whose address exceeds
  the searched address, unless that entry is an end-of-sequence marker.
\<close>

theorem line_lookup_address:
  "(linetab s = None \<longrightarrow> snd (snd (findIP dm s mmap ip)) = None) \<and>
   (linetab s = Some lt \<longrightarrow>
      snd (snd (findIP dm s mmap ip)) =
        line_search lt (if functab s \<noteq> None \<and> isReloc s
                        then ip - Addr mmap + FileOffset mmap else ip)) \<and>
   (linetab s = Some lt \<and> functab s = Some ft \<longrightarrow>
      fst (snd (findIP dm s mmap ip)) = range_search ft (translated_address s mmap ip) \<and>
      snd (snd (findIP dm s mmap ip)) = line_search lt (translated_address s mmap ip)) \<and>
   (linetab s = Some lt \<and> image_table s \<longrightarrow>
      snd (snd (findIP dm s mmap ip)) = line_search lt ip) \<and>
   (sorted (map Address lt) \<longrightarrow> line_search lt a = spec_line_lookup lt a)"
proof (intro conjI impI)
  assume "linetab s = None"
  then show "snd (snd (findIP dm s mmap ip)) = None" by (simp add: findIP_line)
next
  assume "linetab s = Some lt"
  then show "snd (snd (findIP dm s mmap ip)) =
        line_search lt (if functab s \<noteq> None \<and> isReloc s
                        then ip - Addr mmap + FileOffset mmap else ip)"
    by (simp add: findIP_line translated_address_def)
next
  assume "linetab s = Some lt \<and> functab s = Some ft"
  then show "fst (snd (findIP dm s mmap ip)) = range_search ft (translated_address s mmap ip)"
    and "snd (snd (findIP dm s mmap ip)) = line_search lt (translated_address s mmap ip)"
    by (simp_all add: findIP_func findIP_line)
next
  assume a: "linetab s = Some lt \<and> image_table s"
  then have "isReloc s = False" using image_table_inv[of s] by simp
  then have "translated_address s mmap ip = ip" by (simp add: translated_address_def)
  then show "snd (snd (findIP dm s mmap ip)) = line_search lt ip"
    using a by (simp add: findIP_line)
next
  assume "sorted (map Address lt)"
  then show "line_search lt a = spec_line_lookup lt a" by (rule line_search_spec)
qed

text \<open>
  Claim C6, amended, under a mapping at \<open>0x7000\<close> with file offset \<open>0x200\<close>: on the table of
  \<open>/lib/bar.so\<close> (no Line Table), on a table with a Line Table and the relocation flag
  (searched at the translated address) and on the table of \<open>/bin/foo\<close> (searched at the
  queried address).
\<close>

theorem line_lookup_address_witness:
  "linetab bar_table = None \<and>
   snd (snd (findIP (demangle_Filter demo_env) bar_table (demo_mmap ''/lib/bar.so'') 0x7055)) = None \<and>
   linetab reloc_lines_table = Some [demo_line, demo_line_end] \<and>
   functab reloc_lines_table =
     Some [\<lparr>name = ''foo'', lowpc = 0x1000, highpc = 0x1010, demangled = False\<rparr>] \<and>
   isReloc reloc_lines_table \<and>
   translated_address reloc_lines_table (demo_mmap ''/bin/foo'') 0x7e05 = 0x1005 \<and>
   snd (snd (findIP (demangle_Filter demo_env) reloc_lines_table (demo_mmap ''/bin/foo'') 0x7e05)) =
     line_search [demo_line, demo_line_end] 0x1005 \<and>
   fst (snd (findIP (demangle_Filter demo_env) reloc_lines_table (demo_mmap ''/bin/foo'') 0x7e05)) =
     range_search [\<lparr>name = ''foo'', lowpc = 0x1000, highpc = 0x1010, demangled = False\<rparr>] 0x1005 \<and>
   image_table foo_table \<and> linetab foo_table = Some [demo_line, demo_line_end] \<and>
   snd (snd (findIP (demangle_Filter demo_env) foo_table (demo_mmap ''/bin/foo'') 0x1005)) =
     line_search [demo_line, demo_line_end] 0x1005 \<and>
   sorted (map Address [demo_line, demo_line_end]) \<and>
   line_search [demo_line, demo_line_end] 0x1005 = Some demo_line \<and>
   spec_line_lookup [demo_line, demo_line_end] 0x1005 = Some demo_line"
proof -
  let ?dm = "demangle_Filter demo_env"
  let ?lt = "[demo_line, demo_line_end]"
  let ?ft = "[\<lparr>name = ''foo'', lowpc = 0x1000, highpc = 0x1010, demangled = False\<rparr>]"
  note B = line_lookup_address[where s = bar_table and dm = ?dm
      and mmap = "demo_mmap ''/lib/bar.so''" and ip = "0x7055"]
  note R = line_lookup_address[where s = reloc_lines_table and dm = ?dm
      and mmap = "demo_mmap ''/bin/foo''" and ip = "0x7e05" and lt = ?lt and ft = ?ft]
  note F = line_lookup_address[where s = foo_table and dm = ?dm
      and mmap = "demo_mmap ''/bin/foo''" and ip = "0x1005" and lt = ?lt and a = "0x1005"]
  have b1: "linetab bar_table = None" by (simp add: bar_table_def)
  have b2: "snd (snd (findIP ?dm bar_table (demo_mmap ''/lib/bar.so'') 0x7055)) = None"
    using B b1 by blast
  have r1: "linetab reloc_lines_table = Some ?lt" by (simp add: reloc_lines_table_def)
  have r2: "functab reloc_lines_table = Some ?ft" by (simp add: reloc_lines_table_def)
  have r3: "isReloc reloc_lines_table" by (simp add: reloc_lines_table_def)
  have r4: "translated_address reloc_lines_table (demo_mmap ''/bin/foo'') 0x7e05 = 0x1005"
    by (simp add: translated_address_def reloc_lines_table_def demo_mmap_def)
  have r5: "snd (snd (findIP ?dm reloc_lines_table (demo_mmap ''/bin/foo'') 0x7e05)) =
     line_search ?lt (translated_address reloc_lines_table (demo_mmap ''/bin/foo'') 0x7e05)"
    and r6: "fst (snd (findIP ?dm reloc_lines_table (demo_mmap ''/bin/foo'') 0x7e05)) =
     range_search ?ft (translated_address reloc_lines_table (demo_mmap ''/bin/foo'') 0x7e05)"
    using R r1 r2 by blast+
  have f1: "image_table foo_table" using foo_built by (rule built_from_image)
  have f2: "linetab foo_table = Some ?lt" by (simp add: foo_table_def)
  have f3: "snd (snd (findIP ?dm foo_table (demo_mmap ''/bin/foo'') 0x1005)) = line_search ?lt 0x1005"
    using F f1 f2 by blast
  have s1: "sorted (map Address ?lt)"
    by (simp add: demo_line_def demo_line_end_def zeroLineEntry_def)
  have s2: "spec_line_lookup ?lt 0x1005 = Some demo_line"
    by (simp add: spec_line_lookup_def demo_line_def demo_line_end_def zeroLineEntry_def)
  have "line_search ?lt 0x1005 = spec_line_lookup ?lt 0x1005" using F s1 by blast
  then have s3: "line_search ?lt 0x1005 = Some demo_line" using s2 by simp
  show ?thesis
    by (intro conjI b1 b2 r1 r2 r3 r4 r5[unfolded r4] r6[unfolded r4] f1 f2 f3 s1 s3 s2)
qed



text \<open>
  Claim C8. The function lookup searches the Range Table at
  \<open>ip - mmap.Addr + mmap.FileOffset\<close> when the table holds file offsets and at \<open>ip\<close> otherwise.
  So, on a table of file offsets, looking up \<open>mmap.Addr + k\<close> under a mapping with file
  offset 0 finds what a direct lookup of the offset \<open>k\<close> finds, and on any other table the
  mapping plays no part.
\<close>

theorem relocation_translation:
  "fst (snd (findIP dm s mmap ip)) =
     (case functab s of
        None \<Rightarrow> None
      | Some ft \<Rightarrow> range_search ft (if isReloc s then ip - Addr mmap + FileOffset mmap else ip)) \<and>
   (isReloc s \<longrightarrow>
      fst (snd (findIP dm s mmap ip)) =
      fst (snd (findIP dm (s\<lparr>isReloc := False\<rparr>) mmap' (ip - Addr mmap + FileOffset mmap)))) \<and>
   (isReloc s \<and> FileOffset mmap = 0 \<longrightarrow>
      fst (snd (findIP dm s mmap (Addr mmap + k))) =
      fst (snd (findIP dm (s\<lparr>isReloc := False\<rparr>) mmap' k))) \<and>
   (\<not> isReloc s \<longrightarrow> fst (snd (findIP dm s mmap ip)) = fst (snd (findIP dm s mmap' ip)))"
  by (simp add: findIP_func translated_address_def split: option.splits)

text \<open>
  Claim C8 on the tables of \<open>/lib/bar.so\<close> (file offsets) and \<open>/bin/foo\<close> (virtual addresses).
\<close>

theorem relocation_translation_witness:
  "isReloc bar_table \<and>
   fst (snd (findIP (\<lambda>n. n @ ''()'') bar_table (demo_mmap ''/lib/bar.so'') 0x7055)) = Some 0 \<and>
   FileOffset \<lparr>Filename = ''/lib/bar.so'', Addr = 0x7000, FileOffset = 0\<rparr> = 0 \<and>
   fst (snd (findIP (\<lambda>n. n @ ''()'') bar_table
               \<lparr>Filename = ''/lib/bar.so'', Addr = 0x7000, FileOffset = 0\<rparr> (0x7000 + 0x255))) =
   fst (snd (findIP (\<lambda>n. n @ ''()'') (bar_table\<lparr>isReloc := False\<rparr>) (demo_mmap ''/bin/foo'') 0x255)) \<and>
   \<not> isReloc foo_table \<and>
   fst (snd (findIP (\<lambda>n. n @ ''()'') foo_table (demo_mmap ''/bin/foo'') 0x1005)) =
   fst (snd (findIP (\<lambda>n. n @ ''()'') foo_table \<lparr>Filename = ''/bin/foo'', Addr = 0, FileOffset = 0\<rparr> 0x1005))"
proof -
  let ?dm = "\<lambda>n. n @ ''()''"
  let ?m = "demo_mmap ''/lib/bar.so''"
  let ?mz = "\<lparr>Filename = ''/lib/bar.so'', Addr = 0x7000, FileOffset = 0\<rparr>"
  let ?mf = "\<lparr>Filename = ''/bin/foo'', Addr = 0, FileOffset = 0\<rparr>"
  have r: "isReloc bar_table" "\<not> isReloc foo_table" by (simp_all add: bar_table_def foo_table_def)
  have a: "(0x7055 :: u64) - Addr ?m + FileOffset ?m = 0x255"
    by (simp add: demo_mmap_def)
  have 4: "FileOffset ?mz = 0" by simp
  have direct: "fst (snd (findIP ?dm (bar_table\<lparr>isReloc := False\<rparr>) ?m 0x255)) = Some 0"
    by (simp add: findIP_func bar_table_def translated_address_def range_search_hit range_table_def
        in_range_def)
  have "fst (snd (findIP ?dm bar_table ?m 0x7055)) =
        fst (snd (findIP ?dm (bar_table\<lparr>isReloc := False\<rparr>) ?m (0x7055 - Addr ?m + FileOffset ?m)))"
    using relocation_translation[of ?dm bar_table ?m "0x7055" ?m 0] r(1) by blast
  then have 1: "fst (snd (findIP ?dm bar_table ?m 0x7055)) = Some 0"
    by (simp only: a direct)
  have 2: "fst (snd (findIP ?dm bar_table ?mz (0x7000 + 0x255))) =
           fst (snd (findIP ?dm (bar_table\<lparr>isReloc := False\<rparr>) (demo_mmap ''/bin/foo'') 0x255))"
    using relocation_translation[of ?dm bar_table ?mz 0 "demo_mmap ''/bin/foo''" "0x255"] r(1) 4
    by (simp only: Mmap.simps)
  have 3: "fst (snd (findIP ?dm foo_table (demo_mmap ''/bin/foo'') 0x1005)) =
           fst (snd (findIP ?dm foo_table ?mf 0x1005))"
    using relocation_translation[of ?dm foo_table "demo_mmap ''/bin/foo''" "0x1005" ?mf 0] r(2) by blast
  show ?thesis by (intro conjI r 1 2 3 4)
qed



text \<open>
  Claim C10. Every Image Table the program can hold that has a Line Table has its
  relocation flag false, so the address is used as it is. The kernel-symbol parser never
  produces a Line Table; the image loader produces one only for a fully linked
  executable with debug information, and never together with a true relocation flag.
\<close>

theorem line_table_not_relocated:
  "(image_table s \<and> linetab s \<noteq> None \<longrightarrow>
      isReloc s = False \<and> (\<forall>mmap ip. translated_address s mmap ip = ip)) \<and>
   (newKallsyms E filename = Inr s1 \<longrightarrow> linetab s1 = None \<and> isReloc s1 = False) \<and>
   (newSymbolicExtra E filename = Ret (Inr s2) \<and> linetab s2 \<noteq> None \<longrightarrow>
      isReloc s2 = False \<and>
      (\<exists>elff dwarff. elf_Open E filename = Inr elff \<and> elf_Type elff = ET_EXEC \<and>
          has_debug_info elff \<and> elf_DWARF elff = Inr dwarff)) \<and>
   (newSymbolicExtra E filename = Ret (Inr s2) \<and> isReloc s2 \<longrightarrow> linetab s2 = None)"
proof (intro conjI impI)
  assume a: "image_table s \<and> linetab s \<noteq> None"
  then show "isReloc s = False" using image_table_inv by blast
  then show "\<forall>mmap ip. translated_address s mmap ip = ip" by (simp add: translated_address_def)
next
  assume "newKallsyms E filename = Inr s1"
  then show "linetab s1 = None" "isReloc s1 = False" by (simp_all add: newKallsyms_shape)
next
  assume a: "newSymbolicExtra E filename = Ret (Inr s2) \<and> linetab s2 \<noteq> None"
  then show "isReloc s2 = False" using newSymbolicExtra_shape by blast
  from a newSymbolicExtra_Inr[of E filename s2]
  show "\<exists>elff dwarff. elf_Open E filename = Inr elff \<and> elf_Type elff = ET_EXEC \<and>
          has_debug_info elff \<and> elf_DWARF elff = Inr dwarff"
    by (auto split: if_splits)
next
  assume "newSymbolicExtra E filename = Ret (Inr s2) \<and> isReloc s2"
  then show "linetab s2 = None" using newSymbolicExtra_shape by blast
qed

text \<open>
  Claim C10 on the tables of \<open>/bin/foo\<close> (Line Table, not relocated) and \<open>/lib/bar.so\<close>
  (relocated, no Line Table).
\<close>

theorem line_table_not_relocated_witness:
  "image_table foo_table \<and> linetab foo_table \<noteq> None \<and> isReloc foo_table = False \<and>
   translated_address foo_table (demo_mmap ''/bin/foo'') 0x7005 = 0x7005 \<and>
   newSymbolicExtra demo_env ''/lib/bar.so'' = Ret (Inr bar_table) \<and> isReloc bar_table \<and>
   linetab bar_table = None \<and>
   newSymbolicExtra demo_env ''/bin/foo'' = Ret (Inr foo_table) \<and>
   elf_Open demo_env ''/bin/foo'' = Inr foo_elf \<and> elf_Type foo_elf = ET_EXEC \<and> has_debug_info foo_elf"
proof -
  have 1: "image_table foo_table" using foo_built by (rule built_from_image)
  have 2: "linetab foo_table \<noteq> None" "isReloc bar_table" by (simp_all add: foo_table_def bar_table_def)
  have 3: "elf_Open demo_env ''/bin/foo'' = Inr foo_elf" "elf_Type foo_elf = ET_EXEC" "has_debug_info foo_elf"
    by (simp_all add: demo_env_def foo_elf_def)
  show ?thesis
    using line_table_not_relocated[of foo_table demo_env "''/lib/bar.so''" undefined bar_table]
      1 2 3 foo_built bar_built
    by simp
qed

end
